theory Spec2Isabelle
  imports Complex_Main "HOL-Library.AList"
begin

section \<open>JavaScript values\<close>

text \<open>
  The services are JavaScript (ES modules on Node). A thrown \<^verbatim>\<open>Error\<close> is a value
  of type \<open>error\<close> carrying its message; a function that may throw returns
  \<open>error + 'a\<close> with \<open>Inl\<close> for the throw. JavaScript numbers are modelled as
  reals (the values \<^verbatim>\<open>JSON.parse\<close> yields are finite decimals); strings are lists
  of 8-bit characters.
\<close>

datatype error = Error string

datatype role = User | Assistant | System

text \<open>The values \<^verbatim>\<open>JSON.parse\<close> can return. An object is the list of its own properties.\<close>

datatype json =
    JNull
  | JBool bool
  | JNumber real
  | JString string
  | JArray "json list"
  | JObject "(string \<times> json) list"

datatype js_type = TUndefined | TObject | TBoolean | TNumber | TString

text \<open>\<^verbatim>\<open>typeof v\<close>; \<open>None\<close> is \<^verbatim>\<open>undefined\<close>, the value of a missing property.\<close>

fun typeof :: "json option \<Rightarrow> js_type" where
  "typeof None = TUndefined"
| "typeof (Some JNull) = TObject"
| "typeof (Some (JBool b)) = TBoolean"
| "typeof (Some (JNumber x)) = TNumber"
| "typeof (Some (JString s)) = TString"
| "typeof (Some (JArray xs)) = TObject"
| "typeof (Some (JObject kvs)) = TObject"

text \<open>Truthiness, as the left operand of \<^verbatim>\<open>&&\<close> and the condition of \<^verbatim>\<open>if\<close> read it.\<close>

fun truthy :: "json option \<Rightarrow> bool" where
  "truthy None = False"
| "truthy (Some JNull) = False"
| "truthy (Some (JBool b)) = b"
| "truthy (Some (JNumber x)) = (x \<noteq> 0)"
| "truthy (Some (JString s)) = (s \<noteq> [])"
| "truthy (Some (JArray xs)) = True"
| "truthy (Some (JObject kvs)) = True"

text \<open>
  \<^verbatim>\<open>parsed.k\<close> on a value other than \<^verbatim>\<open>null\<close>, for the six field names the
  services read: an object gives its property or \<^verbatim>\<open>undefined\<close>; numbers, booleans,
  strings and arrays have none of these properties. (Reading a property of \<^verbatim>\<open>null\<close>
  throws; \<open>isValid\<close> below makes that case explicit.)
\<close>

fun get_prop :: "json \<Rightarrow> string \<Rightarrow> json option" where
  "get_prop (JObject kvs) k = map_of kvs k"
| "get_prop v k = None"

subsection \<open>Strings\<close>

fun startsWith :: "string \<Rightarrow> string \<Rightarrow> bool" where
  "startsWith s [] = True"
| "startsWith [] (p # ps) = False"
| "startsWith (c # cs) (p # ps) = (c = p \<and> startsWith cs ps)"

text \<open>\<^verbatim>\<open>haystack.includes(needle)\<close>: the needle occurs as a contiguous substring.\<close>

fun js_includes :: "string \<Rightarrow> string \<Rightarrow> bool" where
  "js_includes [] needle = (needle = [])"
| "js_includes (c # cs) needle = (startsWith (c # cs) needle \<or> js_includes cs needle)"

text \<open>\<^verbatim>\<open>xs.join(sep)\<close>.\<close>

fun join :: "string \<Rightarrow> string list \<Rightarrow> string" where
  "join sep [] = []"
| "join sep [x] = x"
| "join sep (x # y # ys) = x @ sep @ join sep (y # ys)"

text \<open>\<^verbatim>\<open>s.substring(0, n)\<close> is \<open>take n s\<close>; \<^verbatim>\<open>xs.slice(-n)\<close> keeps the last \<open>n\<close> elements.\<close>

definition slice_last :: "nat \<Rightarrow> 'a list \<Rightarrow> 'a list" where
  "slice_last n xs = drop (length xs - n) xs"

text \<open>White space removed by \<^verbatim>\<open>trim()\<close>, among the 8-bit characters.\<close>

definition is_space :: "char \<Rightarrow> bool" where
  "is_space c = (c \<in> set [CHR 0x09, CHR 0x0A, CHR 0x0B, CHR 0x0C, CHR 0x0D, CHR 0x20, CHR 0xA0])"

definition trim :: "string \<Rightarrow> string" where
  "trim s = rev (dropWhile is_space (rev (dropWhile is_space s)))"

text \<open>
  \<^verbatim>\<open>content.match(/\{[\s\S]*\}/)\<close>: the match starts at the first \<^verbatim>\<open>{\<close> and, the
  star being greedy over every character, ends at the last \<^verbatim>\<open>}\<close> after it; there is
  no match when no \<^verbatim>\<open>}\<close> follows the first \<^verbatim>\<open>{\<close>.
\<close>

definition match_json :: "string \<Rightarrow> string option" where
  "match_json content =
     (case dropWhile (\<lambda>c. c \<noteq> CHR ''{'') content of
        [] \<Rightarrow> None
      | b # rest \<Rightarrow>
          (if CHR ''}'' \<in> set rest
           then Some (b # rev (dropWhile (\<lambda>c. c \<noteq> CHR ''}'') (rev rest)))
           else None))"

section \<open>Data model\<close>

text \<open>
  A transcript entry (\<^verbatim>\<open>models/Lead.js\<close>). The user turn that
  \<^verbatim>\<open>processMessage\<close> puts at the end of the conversation history has no timestamp.
\<close>

record turn =
  role :: role
  "text" :: string
  timestamp :: "nat option"

datatype status = pending | calling | completed | failed | no_answer

type_synonym lead_id = nat

record lead =
  name :: string
  phone :: string
  email :: string
  status :: status
  attempts :: int
  interest_score :: real
  course_interest :: string
  summary :: string
  transcript :: "turn list"
  createdAt :: nat

text \<open>The record \<^verbatim>\<open>generateAIResponse\<close> returns, read through its six fields.\<close>

record ai_result =
  response :: string
  intent :: string
  interest_score_delta :: real
  course_detected :: string
  objection_detected :: string
  handoff_required :: bool

record call_log =
  leadId :: lead_id
  duration :: nat
  intents :: "string list"
  log_objection_detected :: string
  log_handoff_required :: bool
  raw_transcript :: string

section \<open>LLM service (\<^verbatim>\<open>services/llm.service.js\<close>)\<close>

text \<open>
  The service is listed in \<^verbatim>\<open>src/src/app.js\<close>, after the Express application;
  the line numbers below are those of that file.
\<close>

record chat_message =
  msg_role :: role
  content :: string

text \<open>
  The collaborators of the service: the environment variable, the chat model's
  \<^verbatim>\<open>invoke\<close> (it returns the content of the reply or throws) and the runtime's
  \<^verbatim>\<open>JSON.parse\<close>. Neither is code of this repository; every result below holds
  for all of them.
\<close>

record llm_env =
  GROQ_API_KEY :: "string option"
  invoke :: "chat_message list \<Rightarrow> error + string"
  JSON_parse :: "string \<Rightarrow> error + json"

text \<open>
  The state of the service object: whether \<^verbatim>\<open>this.model\<close> has been created, and
  the log of the calls made to the chat model (the messages of each call, oldest first).
\<close>

record llm_state =
  model :: bool
  invocations :: "chat_message list list"

definition getModel :: "llm_env \<Rightarrow> llm_state \<Rightarrow> error + llm_state" where
  "getModel env st =
     (if \<not> model st then
        (if (case GROQ_API_KEY env of None \<Rightarrow> True | Some k \<Rightarrow> k = [])
         then Inl (Error ''GROQ_API_KEY environment variable is not set'')
         else Inr (st\<lparr>model := True\<rparr>))
      else Inr st)"

definition handoff_response :: ai_result where
  "handoff_response =
     \<lparr>response = ''I don't have that information in the knowledge base. Let me connect you with a counselor who can help you better.'',
      intent = ''handoff'',
      interest_score_delta = 0,
      course_detected = '''',
      objection_detected = '''',
      handoff_required = True\<rparr>"

definition fallback_response :: ai_result where
  "fallback_response =
     \<lparr>response = ''I'm here to help you with admissions. Could you please rephrase your question?'',
      intent = ''general'',
      interest_score_delta = 0,
      course_detected = '''',
      objection_detected = '''',
      handoff_required = False\<rparr>"

text \<open>The grounding gate: the test of lines 144-145 on the retrieved context.\<close>

definition no_context :: "string \<Rightarrow> bool" where
  "no_context retrievedContext =
     (js_includes retrievedContext ''No relevant information found'' \<or>
      js_includes retrievedContext ''Unable to retrieve context'')"

text \<open>The template literal \<^verbatim>\<open>systemPrompt\<close>, around the interpolated context.\<close>

definition systemPrompt_head :: string where
  \<open>systemPrompt_head = concat
    [''You are an AI admission counselor for BML Munjal University. Your goal is to help prospective students learn about courses and guide them through the admission process.\<newline>'',
     ''\<newline>'',
     ''CONTEXT FROM KNOWLEDGE BASE:\<newline>'']\<close>

definition systemPrompt_tail :: string where
  \<open>systemPrompt_tail = concat
    [''\<newline>'',
     ''\<newline>'',
     ''CRITICAL INSTRUCTIONS - STRICT RAG GROUNDING:\<newline>'',
     ''- You MUST answer ONLY using information explicitly present in the CONTEXT FROM KNOWLEDGE BASE above\<newline>'',
     ''- If the answer is not in the provided context, you MUST respond: "I don't have that information in the knowledge base. Let me connect you with a counselor."\<newline>'',
     ''- Do NOT use your internal knowledge or training data\<newline>'',
     ''- Do NOT fabricate or guess: numbers, fees, placements, statistics, dates, or any factual information\<newline>'',
     ''- Do NOT make up course details, admission requirements, or deadlines\<newline>'',
     ''- If uncertain, request human handoff instead of guessing\<newline>'',
     ''- Be helpful and professional, but accuracy is more important than being comprehensive\<newline>'',
     ''\<newline>'',
     ''ADDITIONAL INSTRUCTIONS:\<newline>'',
     ''- Detect student intent and interest level from their questions\<newline>'',
     ''- Identify any objections or concerns they express\<newline>'',
     ''- Determine if human handoff is needed (complex questions, pricing details not in context, etc.)\<newline>'',
     ''- Suggest relevant courses only if they are mentioned in the context\<newline>'',
     ''\<newline>'',
     ''IMPORTANT: You MUST respond with ONLY valid JSON in this exact format:\<newline>'',
     ''{\<newline>'',
     ''  "response": "your conversational response to the student",\<newline>'',
     ''  "intent": "information_seeking|course_inquiry|admission_process|pricing|objection|general",\<newline>'',
     ''  "interest_score_delta": 0,\<newline>'',
     ''  "course_detected": "course name or empty string",\<newline>'',
     ''  "objection_detected": "objection text or empty string",\<newline>'',
     ''  "handoff_required": false\<newline>'',
     ''}\<newline>'',
     ''\<newline>'',
     ''interest_score_delta should be:\<newline>'',
     ''- Positive (1-3) if student shows interest\<newline>'',
     ''- Negative (-1 to -3) if student shows disinterest\<newline>'',
     ''- 0 if neutral\<newline>'',
     ''\<newline>'',
     ''Do not include any text outside the JSON object.'']\<close>

definition systemPrompt :: "string \<Rightarrow> string" where
  "systemPrompt retrievedContext = systemPrompt_head @ retrievedContext @ systemPrompt_tail"

definition build_messages :: "turn list \<Rightarrow> string \<Rightarrow> chat_message list" where
  "build_messages conversationHistory retrievedContext =
     \<lparr>msg_role = System, content = systemPrompt retrievedContext\<rparr> #
     map (\<lambda>msg. \<lparr>msg_role = (if role msg = Assistant then Assistant else User),
                 content = text msg\<rparr>) conversationHistory"

text \<open>
  The validity test of lines 213-219. \<^verbatim>\<open>parsed.response\<close> throws a TypeError when
  \<^verbatim>\<open>parsed\<close> is \<^verbatim>\<open>null\<close>; on every other value the conjunction is evaluated.
\<close>

definition isValid :: "json \<Rightarrow> error + bool" where
  "isValid parsed =
     (if parsed = JNull then Inl (Error ''Cannot read properties of null'')
      else Inr
        (truthy (get_prop parsed ''response'') \<and> typeof (get_prop parsed ''response'') = TString \<and>
         truthy (get_prop parsed ''intent'') \<and> typeof (get_prop parsed ''intent'') = TString \<and>
         typeof (get_prop parsed ''interest_score_delta'') = TNumber \<and>
         typeof (get_prop parsed ''course_detected'') = TString \<and>
         typeof (get_prop parsed ''objection_detected'') = TString \<and>
         typeof (get_prop parsed ''handoff_required'') = TBoolean))"

text \<open>
  The six fields of the returned object as their readers use them. On an object that
  passed \<open>isValid\<close> each field has the type read here (lemma \<open>isValid_fields\<close>).
\<close>

fun str_of :: "json option \<Rightarrow> string" where
  "str_of (Some (JString s)) = s"
| "str_of v = []"

fun num_of :: "json option \<Rightarrow> real" where
  "num_of (Some (JNumber x)) = x"
| "num_of v = 0"

fun bool_of :: "json option \<Rightarrow> bool" where
  "bool_of (Some (JBool b)) = b"
| "bool_of v = False"

definition record_of :: "json \<Rightarrow> ai_result" where
  "record_of parsed =
     \<lparr>response = str_of (get_prop parsed ''response''),
      intent = str_of (get_prop parsed ''intent''),
      interest_score_delta = num_of (get_prop parsed ''interest_score_delta''),
      course_detected = str_of (get_prop parsed ''course_detected''),
      objection_detected = str_of (get_prop parsed ''objection_detected''),
      handoff_required = bool_of (get_prop parsed ''handoff_required'')\<rparr>"

text \<open>Lines 202-226: from the reply's content to the validated record, or a throw.\<close>

definition parse_reply :: "(string \<Rightarrow> error + json) \<Rightarrow> string \<Rightarrow> error + ai_result" where
  "parse_reply parse reply =
     (case match_json (trim reply) of
        None \<Rightarrow> Inl (Error ''No JSON found in LLM response'')
      | Some jsonMatch \<Rightarrow>
          (case parse jsonMatch of
             Inl e \<Rightarrow> Inl e
           | Inr parsed \<Rightarrow>
               (case isValid parsed of
                  Inl e \<Rightarrow> Inl e
                | Inr ok \<Rightarrow>
                    if \<not> ok then Inl (Error ''Invalid JSON structure from LLM'')
                    else Inr (record_of parsed))))"

text \<open>The body of the \<^verbatim>\<open>try\<close> block of \<^verbatim>\<open>generateAIResponse\<close>.\<close>

definition generate_try ::
  "llm_env \<Rightarrow> turn list \<Rightarrow> string \<Rightarrow> llm_state \<Rightarrow> (error + ai_result) \<times> llm_state" where
  "generate_try env conversationHistory retrievedContext st =
     (if no_context retrievedContext then (Inr handoff_response, st)
      else
        let messages = build_messages conversationHistory retrievedContext in
        case getModel env st of
          Inl e \<Rightarrow> (Inl e, st)
        | Inr st1 \<Rightarrow>
            let st2 = st1\<lparr>invocations := invocations st1 @ [messages]\<rparr> in
            (case invoke env messages of
               Inl e \<Rightarrow> (Inl e, st2)
             | Inr reply \<Rightarrow> (parse_reply (JSON_parse env) reply, st2)))"

text \<open>The \<^verbatim>\<open>catch\<close> block turns every throw into the fallback record.\<close>

definition generateAIResponse ::
  "llm_env \<Rightarrow> turn list \<Rightarrow> string \<Rightarrow> llm_state \<Rightarrow> ai_result \<times> llm_state" where
  "generateAIResponse env conversationHistory retrievedContext st =
     (case generate_try env conversationHistory retrievedContext st of
        (Inl e, st') \<Rightarrow> (fallback_response, st')
      | (Inr r, st') \<Rightarrow> (r, st'))"

section \<open>Retrieval service (\<^verbatim>\<open>services/rag.service.js\<close>)\<close>

text \<open>\<^verbatim>\<open>`${n}`\<close> for a natural number: its decimal digits.\<close>

fun show_nat :: "nat \<Rightarrow> string" where
  "show_nat n =
     (if n < 10 then [''0123456789'' ! n]
      else show_nat (n div 10) @ [''0123456789'' ! (n mod 10)])"

declare show_nat.simps [simp del]

record query_params =
  queryTexts :: "string list"
  nResults :: nat
  where_filter :: "(string \<times> string) list option"

text \<open>
  What the vector store answers: \<^verbatim>\<open>results.documents\<close> is missing (\<open>None\<close>) or
  holds one ranked list of documents per query text.
\<close>

record query_results =
  documents :: "string list list option"

text \<open>
  The vector store, a collaborator: \<^verbatim>\<open>getOrCreateCollection\<close> succeeds or
  throws, and so does \<^verbatim>\<open>collection.query\<close>.
\<close>

record rag_env =
  getOrCreateCollection :: "error option"
  collection_query :: "query_params \<Rightarrow> error + query_results"

record rag_state =
  collection :: bool

definition initializeCollection :: "rag_env \<Rightarrow> rag_state \<Rightarrow> error + rag_state" where
  "initializeCollection env st =
     (case getOrCreateCollection env of
        Some e \<Rightarrow> Inl e
      | None \<Rightarrow> Inr (st\<lparr>collection := True\<rparr>))"

definition no_match_sentinel :: string where
  "no_match_sentinel = ''No relevant information found in knowledge base.''"

definition retrieval_failure_sentinel :: string where
  "retrieval_failure_sentinel = ''Unable to retrieve context from knowledge base.''"

text \<open>The \<^verbatim>\<open>try\<close> block of \<^verbatim>\<open>retrieveContext\<close>.\<close>

definition retrieve_try ::
  "rag_env \<Rightarrow> string \<Rightarrow> nat \<Rightarrow> (string \<times> string) list \<Rightarrow> rag_state \<Rightarrow> (error + string) \<times> rag_state" where
  "retrieve_try env query topK filter_arg st =
     (case (if \<not> collection st then initializeCollection env st else Inr st) of
        Inl e \<Rightarrow> (Inl e, st)
      | Inr st1 \<Rightarrow>
          let queryParams =
                \<lparr>queryTexts = [query], nResults = topK,
                 where_filter = (if length filter_arg > 0 then Some filter_arg else None)\<rparr>
          in
          (case collection_query env queryParams of
             Inl e \<Rightarrow> (Inl e, st1)
           | Inr results \<Rightarrow>
               (case documents results of
                  None \<Rightarrow> (Inr no_match_sentinel, st1)
                | Some [] \<Rightarrow> (Inr no_match_sentinel, st1)
                | Some (first # others) \<Rightarrow>
                    (Inr (join ''\<newline>\<newline>''
                            (map (\<lambda>(idx, doc). ''[Source '' @ show_nat (idx + 1) @ '']: '' @ doc)
                                 (enumerate 0 first))), st1))))"

text \<open>The \<^verbatim>\<open>catch\<close> block answers every throw with the failure sentinel.\<close>

definition retrieveContext ::
  "rag_env \<Rightarrow> string \<Rightarrow> nat \<Rightarrow> (string \<times> string) list \<Rightarrow> rag_state \<Rightarrow> string \<times> rag_state" where
  "retrieveContext env query topK filter_arg st =
     (case retrieve_try env query topK filter_arg st of
        (Inl e, st') \<Rightarrow> (retrieval_failure_sentinel, st')
      | (Inr context, st') \<Rightarrow> (context, st'))"

section \<open>Conversation service (\<^verbatim>\<open>services/conversation.service.js\<close>)\<close>

text \<open>The service is the file \<^verbatim>\<open>src/unnamed/part_002\<close>, whose line numbers are used.\<close>

text \<open>
  The shared state a turn works on: the leads collection (documents by id), the call
  logs, and the two service objects.
\<close>

record world =
  leads :: "(lead_id \<times> lead) list"
  call_logs :: "call_log list"
  llm_st :: llm_state
  rag_st :: rag_state

text \<open>
  What the outside gives one turn: the collaborators of the two services, whether each
  of the three store calls throws, and the two readings of the clock
  (\<^verbatim>\<open>new Date()\<close>, milliseconds).
\<close>

record turn_env =
  llm :: llm_env
  rag :: rag_env
  findById_error :: "error option"
  findByIdAndUpdate_error :: "error option"
  create_error :: "error option"
  date_user :: nat
  date_assistant :: nat

text \<open>The update document: \<^verbatim>\<open>$push ... $each\<close> and the fields to set.\<close>

record update_data =
  push_transcript :: "turn list"
  set_interest_score :: real
  set_course_interest :: "string option"
  set_summary :: "string option"

definition role_name :: "role \<Rightarrow> string" where
  "role_name r = (case r of User \<Rightarrow> ''user'' | Assistant \<Rightarrow> ''assistant'' | System \<Rightarrow> ''system'')"

definition generateSummary :: "turn list \<Rightarrow> string" where
  "generateSummary recentTranscript =
     take 500 (join '' | '' (map (\<lambda>t. role_name (role t) @ '': '' @ text t) recentTranscript))"

text \<open>
  \<^verbatim>\<open>Lead.findByIdAndUpdate(leadId, updateData, { new: true })\<close>: one atomic
  operation of the store. It answers \<^verbatim>\<open>null\<close> when no document has the id.
\<close>

definition apply_update :: "update_data \<Rightarrow> lead \<Rightarrow> lead" where
  "apply_update u l =
     l\<lparr>transcript := transcript l @ push_transcript u,
       interest_score := set_interest_score u,
       course_interest := (case set_course_interest u of None \<Rightarrow> course_interest l | Some c \<Rightarrow> c),
       summary := (case set_summary u of None \<Rightarrow> summary l | Some s \<Rightarrow> s)\<rparr>"

definition findByIdAndUpdate ::
  "lead_id \<Rightarrow> update_data \<Rightarrow> (lead_id \<times> lead) list \<Rightarrow> lead option \<times> (lead_id \<times> lead) list" where
  "findByIdAndUpdate i u store =
     (case map_of store i of
        None \<Rightarrow> (None, store)
      | Some l \<Rightarrow> (Some (apply_update u l), AList.update i (apply_update u l) store))"

text \<open>The local variables of \<^verbatim>\<open>processMessage\<close> that are live at the update.\<close>

record pending_turn =
  lead_read :: lead
  aiResult :: ai_result
  updateData :: update_data

record turn_reply =
  reply_response :: string
  reply_id :: lead_id
  reply_name :: string
  reply_interest_score :: real
  reply_course_interest :: string
  reply_status :: status
  reply_intent :: string
  reply_handoff_required :: bool
  reply_objection_detected :: string

text \<open>Lines 30-65: the update document of a turn.\<close>

definition build_update :: "turn_env \<Rightarrow> lead \<Rightarrow> string \<Rightarrow> turn list \<Rightarrow> ai_result \<Rightarrow> update_data" where
  "build_update env lead_doc userMessage conversationHistory r =
     (let userMessageEntry =
            \<lparr>role = User, text = userMessage, timestamp = Some (date_user env)\<rparr>;
          assistantMessageEntry =
            \<lparr>role = Assistant, text = response r, timestamp = Some (date_assistant env)\<rparr>;
          newInterestScore = max 0 (min 100 (interest_score lead_doc + interest_score_delta r))
      in \<lparr>push_transcript = [userMessageEntry, assistantMessageEntry],
          set_interest_score = newInterestScore,
          set_course_interest = (if course_detected r \<noteq> [] then Some (course_detected r) else None),
          set_summary =
            (if length conversationHistory > 4
             then Some (generateSummary (slice_last 6 conversationHistory @ [assistantMessageEntry]))
             else None)\<rparr>)"

text \<open>
  Lines 10-65, up to the update: read the lead, retrieve, generate, prepare the update.
  Nothing is written to the leads collection here.
\<close>

definition turn_begin ::
  "turn_env \<Rightarrow> lead_id \<Rightarrow> string \<Rightarrow> world \<Rightarrow> (error + pending_turn) \<times> world" where
  "turn_begin env i userMessage w =
     (case findById_error env of
        Some e \<Rightarrow> (Inl e, w)
      | None \<Rightarrow>
          (case map_of (leads w) i of
             None \<Rightarrow> (Inl (Error ''Lead not found''), w)
           | Some lead_doc \<Rightarrow>
               let (retrievedContext, rag') = retrieveContext (rag env) userMessage 3 [] (rag_st w);
                   conversationHistory =
                     transcript lead_doc @ [\<lparr>role = User, text = userMessage, timestamp = None\<rparr>];
                   (r, llm') =
                     generateAIResponse (llm env) conversationHistory retrievedContext (llm_st w)
               in (Inr \<lparr>lead_read = lead_doc, aiResult = r,
                        updateData = build_update env lead_doc userMessage conversationHistory r\<rparr>,
                   w\<lparr>llm_st := llm', rag_st := rag'\<rparr>)))"

text \<open>Lines 67-103: the atomic update, the call log, the reply.\<close>

definition turn_commit ::
  "turn_env \<Rightarrow> lead_id \<Rightarrow> string \<Rightarrow> pending_turn \<Rightarrow> world \<Rightarrow> (error + turn_reply) \<times> world" where
  "turn_commit env i userMessage p w =
     (case findByIdAndUpdate_error env of
        Some e \<Rightarrow> (Inl e, w)
      | None \<Rightarrow>
          let (updatedLead, store') = findByIdAndUpdate i (updateData p) (leads w);
              w1 = w\<lparr>leads := store'\<rparr>
          in
          (case create_error env of
             Some e \<Rightarrow> (Inl e, w1)
           | None \<Rightarrow>
               let w2 = w1\<lparr>call_logs := call_logs w1 @
                             [\<lparr>leadId = i, duration = 0,
                               intents = [intent (aiResult p)],
                               log_objection_detected = objection_detected (aiResult p),
                               log_handoff_required = handoff_required (aiResult p),
                               raw_transcript =
                                 ''User: '' @ userMessage @ ''\<newline>AI: '' @ response (aiResult p)\<rparr>]\<rparr>
               in
               (case updatedLead of
                  None \<Rightarrow> (Inl (Error ''Cannot read properties of null''), w2)
                | Some u \<Rightarrow>
                    (Inr \<lparr>reply_response = response (aiResult p),
                          reply_id = i,
                          reply_name = name u,
                          reply_interest_score = interest_score u,
                          reply_course_interest = course_interest u,
                          reply_status = status u,
                          reply_intent = intent (aiResult p),
                          reply_handoff_required = handoff_required (aiResult p),
                          reply_objection_detected = objection_detected (aiResult p)\<rparr>, w2))))"

text \<open>
  \<^verbatim>\<open>processMessage\<close>: the two parts in sequence. Its \<^verbatim>\<open>catch\<close> block logs the
  error and throws it again, so a throw of either part is the result.
\<close>

definition processMessage ::
  "turn_env \<Rightarrow> lead_id \<Rightarrow> string \<Rightarrow> world \<Rightarrow> (error + turn_reply) \<times> world" where
  "processMessage env i userMessage w =
     (case turn_begin env i userMessage w of
        (Inl e, w') \<Rightarrow> (Inl e, w')
      | (Inr p, w') \<Rightarrow> turn_commit env i userMessage p w')"

section \<open>Call worker (\<^verbatim>\<open>workers/call.worker.js\<close>)\<close>

text \<open>The worker is listed at the end of \<^verbatim>\<open>src/FIXES-APPLIED.md\<close>.\<close>

text \<open>
  What the outside does while one lead is processed: whether each of the three
  \<^verbatim>\<open>lead.save()\<close> calls throws, and the outcome resolver
  (\<^verbatim>\<open>simulateCallOutcome\<close>, which draws its answer at random, or the telephony
  integration that is to replace it); it answers with an outcome string or throws.
\<close>

record lead_env =
  save_calling_error :: "error option"
  resolve :: "lead \<Rightarrow> error + string"
  save_outcome_error :: "error option"
  save_failed_error :: "error option"

text \<open>
  \<^verbatim>\<open>lead.save()\<close> writes the modified paths of the document, here \<open>status\<close> and
  \<open>attempts\<close>, to the stored document of the same id, and throws when there is none.
  (A path saved before and not modified since is written again, with the value it has.)
\<close>

definition save ::
  "error option \<Rightarrow> lead_id \<Rightarrow> lead \<Rightarrow> (lead_id \<times> lead) list \<Rightarrow> error + (lead_id \<times> lead) list" where
  "save fault i doc store =
     (case fault of
        Some e \<Rightarrow> Inl e
      | None \<Rightarrow>
          (case map_of store i of
             None \<Rightarrow> Inl (Error ''DocumentNotFoundError'')
           | Some cur \<Rightarrow>
               Inr (AList.update i (cur\<lparr>status := status doc, attempts := attempts doc\<rparr>) store)))"

text \<open>The first three statements of the loop body: the lead goes to calling, with one more
  attempt, and is saved.\<close>

definition start_attempt ::
  "lead_env \<Rightarrow> lead_id \<Rightarrow> lead \<Rightarrow> (lead_id \<times> lead) list \<Rightarrow> lead \<times> (error + (lead_id \<times> lead) list)" where
  "start_attempt env i lead_doc store =
     (let doc1 = lead_doc\<lparr>status := calling, attempts := attempts lead_doc + 1\<rparr>
      in (doc1, save (save_calling_error env) i doc1 store))"

text \<open>The branches on the outcome. Any other string changes nothing.\<close>

definition apply_outcome :: "string \<Rightarrow> lead \<Rightarrow> lead" where
  "apply_outcome outcome doc =
     (if outcome = ''completed'' then doc\<lparr>status := completed\<rparr>
      else if outcome = ''no_answer'' then
        (if attempts doc \<ge> 3 then doc\<lparr>status := failed\<rparr> else doc\<lparr>status := pending\<rparr>)
      else if outcome = ''failed'' then doc\<lparr>status := failed\<rparr>
      else doc)"

text \<open>
  The inner \<^verbatim>\<open>catch\<close>: the document is marked failed and saved; a throw of that
  save is logged and dropped.
\<close>

definition mark_failed ::
  "lead_env \<Rightarrow> lead_id \<Rightarrow> lead \<Rightarrow> (lead_id \<times> lead) list \<Rightarrow> lead \<times> (lead_id \<times> lead) list" where
  "mark_failed env i doc store =
     (let doc' = doc\<lparr>status := failed\<rparr>
      in case save (save_failed_error env) i doc' store of
           Inl e \<Rightarrow> (doc', store)
         | Inr store' \<Rightarrow> (doc', store'))"

text \<open>
  The body of the \<^verbatim>\<open>for\<close> loop, for one fetched document: the result is the
  document as the worker leaves it, and the collection.
\<close>

definition process_lead ::
  "lead_env \<Rightarrow> lead_id \<times> lead \<Rightarrow> (lead_id \<times> lead) list \<Rightarrow> lead \<times> (lead_id \<times> lead) list" where
  "process_lead env fetched store =
     (case fetched of (i, lead_doc) \<Rightarrow>
        (case start_attempt env i lead_doc store of
           (doc1, Inl e) \<Rightarrow> mark_failed env i doc1 store
         | (doc1, Inr store1) \<Rightarrow>
             (case resolve env doc1 of
                Inl e \<Rightarrow> mark_failed env i doc1 store1
              | Inr outcome \<Rightarrow>
                  let doc2 = apply_outcome outcome doc1 in
                  (case save (save_outcome_error env) i doc2 store1 of
                     Inl e \<Rightarrow> mark_failed env i doc2 store1
                   | Inr store2 \<Rightarrow> (doc2, store2)))))"




subsection \<open>Triggers\<close>

text \<open>
  The worker object: the flag \<^verbatim>\<open>isRunning\<close>, and the number of executions of
  \<^verbatim>\<open>processCallQueue\<close> that have started and not yet returned. A pass runs
  asynchronously, so triggers arrive while it is suspended at an \<^verbatim>\<open>await\<close>.
\<close>

record worker =
  isRunning :: bool
  passes_in_flight :: nat

datatype trigger = CronTick | CronPassReturns | ManualTrigger | ManualPassReturns

text \<open>
  \<open>CronTick\<close> is the callback scheduled by \<^verbatim>\<open>start()\<close> up to its call of
  \<^verbatim>\<open>processCallQueue\<close>, and \<open>CronPassReturns\<close> its \<^verbatim>\<open>finally\<close> block;
  \<open>ManualTrigger\<close> is \<^verbatim>\<open>triggerManually()\<close> up to its call of
  \<^verbatim>\<open>processCallQueue\<close>, and \<open>ManualPassReturns\<close> the return of that call.
\<close>

fun worker_step :: "trigger \<Rightarrow> worker \<Rightarrow> worker" where
  "worker_step CronTick w =
     (if isRunning w then w
      else w\<lparr>isRunning := True, passes_in_flight := passes_in_flight w + 1\<rparr>)"
| "worker_step CronPassReturns w =
     w\<lparr>isRunning := False, passes_in_flight := passes_in_flight w - 1\<rparr>"
| "worker_step ManualTrigger w = w\<lparr>passes_in_flight := passes_in_flight w + 1\<rparr>"
| "worker_step ManualPassReturns w = w\<lparr>passes_in_flight := passes_in_flight w - 1\<rparr>"

definition new_worker :: worker where
  "new_worker = \<lparr>isRunning = False, passes_in_flight = 0\<rparr>"

section \<open>Concurrent turns\<close>

text \<open>
  A turn suspends at each \<^verbatim>\<open>await\<close>. Only \<^verbatim>\<open>findById\<close> and
  \<^verbatim>\<open>findByIdAndUpdate\<close> touch the leads collection, so a turn takes two steps
  on it: \<open>turn_begin\<close> (which reads the lead) and \<open>turn_commit\<close> (the atomic update);
  another turn may run between the two. A task that has finished keeps the update it
  made.
\<close>

datatype task =
    Ready
  | Waiting pending_turn
  | Done pending_turn turn_reply
  | Failed error

record request =
  req_env :: turn_env
  req_lead :: lead_id
  req_message :: string

definition task_step :: "request \<Rightarrow> task \<Rightarrow> world \<Rightarrow> task \<times> world" where
  "task_step rq t w =
     (case t of
        Ready \<Rightarrow>
          (case turn_begin (req_env rq) (req_lead rq) (req_message rq) w of
             (Inl e, w') \<Rightarrow> (Failed e, w')
           | (Inr p, w') \<Rightarrow> (Waiting p, w'))
      | Waiting p \<Rightarrow>
          (case turn_commit (req_env rq) (req_lead rq) (req_message rq) p w of
             (Inl e, w') \<Rightarrow> (Failed e, w')
           | (Inr r, w') \<Rightarrow> (Done p r, w'))
      | Done p r \<Rightarrow> (t, w)
      | Failed e \<Rightarrow> (t, w))"

text \<open>
  Two turns under a schedule: at each step the scheduler lets the first turn
  (\<open>True\<close>) or the second (\<open>False\<close>) take its next step.
\<close>

fun run_two :: "request \<Rightarrow> request \<Rightarrow> bool list \<Rightarrow> task \<times> task \<times> world \<Rightarrow> task \<times> task \<times> world" where
  "run_two r1 r2 [] c = c"
| "run_two r1 r2 (b # bs) (t1, t2, w) =
     (if b then (case task_step r1 t1 w of (t1', w') \<Rightarrow> run_two r1 r2 bs (t1', t2, w'))
      else (case task_step r2 t2 w of (t2', w') \<Rightarrow> run_two r1 r2 bs (t1, t2', w')))"

text \<open>Turns one after the other, each run to its end.\<close>

fun run_turns :: "request list \<Rightarrow> world \<Rightarrow> world" where
  "run_turns [] w = w"
| "run_turns (rq # rqs) w =
     run_turns rqs (snd (processMessage (req_env rq) (req_lead rq) (req_message rq) w))"

definition scores_in_range :: "world \<Rightarrow> bool" where
  "scores_in_range w =
     (\<forall>i l. map_of (leads w) i = Some l \<longrightarrow> 0 \<le> interest_score l \<and> interest_score l \<le> 100)"

subsection \<open>Invariants of the interleaving\<close>

text \<open>A task waiting to commit holds a score that lies within the bounds.\<close>

definition task_score_ok :: "task \<Rightarrow> bool" where
  "task_score_ok t =
     (case t of
        Waiting p \<Rightarrow> 0 \<le> set_interest_score (updateData p) \<and> set_interest_score (updateData p) \<le> 100
      | _ \<Rightarrow> True)"

text \<open>The two transcript entries of a turn: the user turn, then the assistant turn.\<close>

definition turn_entries :: "turn_env \<Rightarrow> string \<Rightarrow> ai_result \<Rightarrow> turn list" where
  "turn_entries env userMessage r =
     [\<lparr>role = User, text = userMessage, timestamp = Some (date_user env)\<rparr>,
      \<lparr>role = Assistant, text = response r, timestamp = Some (date_assistant env)\<rparr>]"

text \<open>What a task has appended to the transcript so far, and whether it has failed.\<close>

definition appended :: "task \<Rightarrow> turn list" where
  "appended t = (case t of Done p r \<Rightarrow> push_transcript (updateData p) | _ \<Rightarrow> [])"

definition has_failed :: "task \<Rightarrow> bool" where
  "has_failed t = (case t of Failed e \<Rightarrow> True | _ \<Rightarrow> False)"

definition task_entries_ok :: "request \<Rightarrow> task \<Rightarrow> bool" where
  "task_entries_ok rq t =
     (case t of
        Waiting p \<Rightarrow>
          push_transcript (updateData p) = turn_entries (req_env rq) (req_message rq) (aiResult p)
      | Done p r \<Rightarrow>
          push_transcript (updateData p) = turn_entries (req_env rq) (req_message rq) (aiResult p)
      | _ \<Rightarrow> True)"

text \<open>
  The transcript of lead \<open>i\<close> is the initial one followed by what the two tasks have
  appended, in one order or the other (nothing is required once a task has failed).
\<close>

definition transcript_inv :: "lead_id \<Rightarrow> turn list \<Rightarrow> task \<times> task \<times> world \<Rightarrow> bool" where
  "transcript_inv i initial c =
     (case c of (t1, t2, w) \<Rightarrow>
        has_failed t1 \<or> has_failed t2 \<or>
        (\<exists>l. map_of (leads w) i = Some l \<and>
           (transcript l = initial @ appended t1 @ appended t2 \<or>
            transcript l = initial @ appended t2 @ appended t1)))"

section \<open>The required fields, as the specification lists them\<close>

definition required_fields :: "(string \<times> js_type) list" where
  "required_fields =
     [(''response'', TString), (''intent'', TString), (''interest_score_delta'', TNumber),
      (''course_detected'', TString), (''objection_detected'', TString),
      (''handoff_required'', TBoolean)]"

text \<open>A required field is absent (its type is then \<open>TUndefined\<close>) or of the wrong type.\<close>

definition missing_or_mistyped :: "json \<Rightarrow> bool" where
  "missing_or_mistyped parsed =
     list_ex (\<lambda>(k, ty). typeof (get_prop parsed k) \<noteq> ty) required_fields"

text \<open>
  A reply in which no JSON object can be located (no match, or the match does not
  parse), or whose object lacks a field or has one of the wrong type.
\<close>

definition unusable_reply :: "(string \<Rightarrow> error + json) \<Rightarrow> string \<Rightarrow> bool" where
  "unusable_reply parse reply =
     (case match_json (trim reply) of
        None \<Rightarrow> True
      | Some jsonMatch \<Rightarrow>
          (case parse jsonMatch of
             Inl e \<Rightarrow> True
           | Inr parsed \<Rightarrow> missing_or_mistyped parsed))"

section \<open>Example inputs\<close>

definition example_lead :: lead where
  "example_lead =
     \<lparr>name = ''Asha'', phone = ''9990001111'', email = ''asha@example.com'',
      status = pending, attempts = 0, interest_score = 80, course_interest = '''',
      summary = '''', transcript = [], createdAt = 0\<rparr>"

definition new_llm :: llm_state where
  "new_llm = \<lparr>model = False, invocations = []\<rparr>"

definition example_world :: world where
  "example_world =
     \<lparr>leads = [(1, example_lead)], call_logs = [], llm_st = new_llm,
      rag_st = \<lparr>collection = False\<rparr>\<rparr>"

text \<open>A reply with every field of the right type and a score delta of 50.\<close>

definition reply_delta_50 :: string where
  \<open>reply_delta_50 =
     ''{"response":"Great choice!","intent":"course_inquiry","interest_score_delta":50,"course_detected":"B.Tech","objection_detected":"","handoff_required":false}''\<close>

definition parsed_delta_50 :: json where
  "parsed_delta_50 =
     JObject [(''response'', JString ''Great choice!''), (''intent'', JString ''course_inquiry''),
              (''interest_score_delta'', JNumber 50), (''course_detected'', JString ''B.Tech''),
              (''objection_detected'', JString ''''), (''handoff_required'', JBool False)]"

text \<open>A reply without \<^verbatim>\<open>objection_detected\<close>.\<close>

definition reply_no_objection :: string where
  \<open>reply_no_objection =
     ''Sure! {"response":"Hello","intent":"general","interest_score_delta":1,"course_detected":"","handoff_required":false}''\<close>

definition parsed_no_objection :: json where
  "parsed_no_objection =
     JObject [(''response'', JString ''Hello''), (''intent'', JString ''general''),
              (''interest_score_delta'', JNumber 1), (''course_detected'', JString ''''),
              (''handoff_required'', JBool False)]"

text \<open>
  A chat model that answers every call with the given reply, next to a
  \<^verbatim>\<open>JSON.parse\<close> of which only the value on that reply's JSON text matters.
\<close>

definition example_llm :: "string \<Rightarrow> string \<Rightarrow> json \<Rightarrow> llm_env" where
  "example_llm reply json_text parsed =
     \<lparr>GROQ_API_KEY = Some ''gsk_example'',
      invoke = (\<lambda>messages. Inr reply),
      JSON_parse = (\<lambda>s. if s = json_text then Inr parsed else Inl (Error ''SyntaxError''))\<rparr>"

definition llm_delta_50 :: llm_env where
  "llm_delta_50 = example_llm reply_delta_50 reply_delta_50 parsed_delta_50"

definition llm_no_objection :: llm_env where
  "llm_no_objection = example_llm reply_no_objection (drop 6 reply_no_objection) parsed_no_objection"

text \<open>A vector store that is down, one that matches nothing, one with a document.\<close>

definition rag_down :: rag_env where
  "rag_down =
     \<lparr>getOrCreateCollection = Some (Error ''ECONNREFUSED''),
      collection_query = (\<lambda>q. Inl (Error ''ECONNREFUSED''))\<rparr>"

definition rag_no_match :: rag_env where
  "rag_no_match =
     \<lparr>getOrCreateCollection = None,
      collection_query = (\<lambda>q. Inr \<lparr>documents = Some [[]]\<rparr>)\<rparr>"

definition rag_one_document :: rag_env where
  "rag_one_document =
     \<lparr>getOrCreateCollection = None,
      collection_query = (\<lambda>q. Inr \<lparr>documents = Some [[''B.Tech admissions are open.'']]\<rparr>)\<rparr>"

definition example_env :: "llm_env \<Rightarrow> rag_env \<Rightarrow> nat \<Rightarrow> turn_env" where
  "example_env l r t =
     \<lparr>llm = l, rag = r, findById_error = None, findByIdAndUpdate_error = None,
      create_error = None, date_user = t, date_assistant = t + 1\<rparr>"

text \<open>A lead whose stored transcript has exactly four entries.\<close>

definition example_lead_4 :: lead where
  "example_lead_4 =
     example_lead
       \<lparr>transcript :=
          [\<lparr>role = User, text = ''Hi'', timestamp = Some 10\<rparr>,
           \<lparr>role = Assistant, text = ''Hello'', timestamp = Some 11\<rparr>,
           \<lparr>role = User, text = ''Fees?'', timestamp = Some 20\<rparr>,
           \<lparr>role = Assistant, text = ''Ask a counselor'', timestamp = Some 21\<rparr>]\<rparr>"

definition example_world_4 :: world where
  "example_world_4 = example_world\<lparr>leads := [(1, example_lead_4)]\<rparr>"








section \<open>Evaluation of the strings and of the example inputs\<close>

lemma no_context_no_match: "no_context no_match_sentinel"
  by (simp add: no_context_def no_match_sentinel_def)

lemma no_context_failure: "no_context retrieval_failure_sentinel"
  by (simp add: no_context_def retrieval_failure_sentinel_def)

lemma not_no_context_empty: "\<not> no_context []"
  by (simp add: no_context_def)

lemma not_no_context_doc: "\<not> no_context ''[Source 1]: B.Tech admissions are open.''"
  by (simp add: no_context_def)

lemma match_delta_50: "match_json (trim reply_delta_50) = Some reply_delta_50"
  by (simp add: match_json_def trim_def reply_delta_50_def is_space_def)

lemma match_no_objection:
  "match_json (trim reply_no_objection) = Some (drop 6 reply_no_objection)"
  by (simp add: match_json_def trim_def reply_no_objection_def is_space_def)

lemma isValid_delta_50: "isValid parsed_delta_50 = Inr True"
  by (simp add: isValid_def parsed_delta_50_def)

lemma retrieve_down:
  "retrieveContext rag_down q k f \<lparr>collection = False\<rparr> =
     (retrieval_failure_sentinel, \<lparr>collection = False\<rparr>)"
  by (simp add: retrieveContext_def retrieve_try_def rag_down_def initializeCollection_def)

lemma retrieve_no_match:
  "retrieveContext rag_no_match q k f \<lparr>collection = False\<rparr> = ([], \<lparr>collection = True\<rparr>)"
  by (simp add: retrieveContext_def retrieve_try_def rag_no_match_def initializeCollection_def)

lemma retrieve_one_document:
  "retrieveContext rag_one_document q k f \<lparr>collection = False\<rparr> =
     (''[Source 1]: B.Tech admissions are open.'', \<lparr>collection = True\<rparr>)"
  by (simp add: retrieveContext_def retrieve_try_def rag_one_document_def
      initializeCollection_def enumerate_eq_zip show_nat.simps)

section \<open>The grounding gate and the validator\<close>

lemma generate_gate:
  "no_context ctx \<Longrightarrow> generateAIResponse env hist ctx st = (handoff_response, st)"
  by (simp add: generateAIResponse_def generate_try_def)

lemma getModel_available:
  assumes "model st \<or> (\<exists>k. GROQ_API_KEY env = Some k \<and> k \<noteq> [])"
  shows "getModel env st = Inr (st\<lparr>model := True\<rparr>)"
  using assms by (cases st) (auto simp: getModel_def)

lemma generate_invokes:
  assumes "\<not> no_context ctx"
    and "model st \<or> (\<exists>k. GROQ_API_KEY env = Some k \<and> k \<noteq> [])"
  shows "invocations (snd (generateAIResponse env hist ctx st)) =
           invocations st @ [build_messages hist ctx]"
  using assms(1) getModel_available [OF assms(2)]
  by (simp add: generateAIResponse_def generate_try_def Let_def split: sum.splits)

lemma isValid_mistyped:
  "missing_or_mistyped parsed \<Longrightarrow> isValid parsed \<noteq> Inr True"
  by (auto simp: missing_or_mistyped_def required_fields_def isValid_def)

lemma parse_reply_unusable:
  "unusable_reply parse reply \<Longrightarrow> \<exists>e. parse_reply parse reply = Inl e"
  using isValid_mistyped
  by (fastforce simp: unusable_reply_def parse_reply_def split: option.splits sum.splits)

lemma generate_try_throw:
  "generate_try env hist ctx st = (Inl e, st') \<Longrightarrow>
   generateAIResponse env hist ctx st = (fallback_response, st')"
  by (simp add: generateAIResponse_def)

lemma generate_unusable:
  assumes "\<not> no_context ctx"
    and "invoke env (build_messages hist ctx) = Inr reply"
    and "unusable_reply (JSON_parse env) reply"
  shows "\<exists>e st'. generate_try env hist ctx st = (Inl e, st')"
proof -
  obtain e where "parse_reply (JSON_parse env) reply = Inl e"
    using parse_reply_unusable [OF assms(3)] by blast
  then show ?thesis
    using assms(1,2) by (auto simp: generate_try_def Let_def split: sum.splits)
qed

lemma typeof_string: "typeof v = TString \<Longrightarrow> \<exists>s. v = Some (JString s)"
  by (erule typeof.elims) simp_all

lemma typeof_number: "typeof v = TNumber \<Longrightarrow> \<exists>x. v = Some (JNumber x)"
  by (erule typeof.elims) simp_all

lemma typeof_boolean: "typeof v = TBoolean \<Longrightarrow> \<exists>b. v = Some (JBool b)"
  by (erule typeof.elims) simp_all

lemma isValid_fields:
  assumes "isValid parsed = Inr True"
  shows "\<exists>r i d c ob h.
           get_prop parsed ''response'' = Some (JString r) \<and> r \<noteq> [] \<and>
           get_prop parsed ''intent'' = Some (JString i) \<and> i \<noteq> [] \<and>
           get_prop parsed ''interest_score_delta'' = Some (JNumber d) \<and>
           get_prop parsed ''course_detected'' = Some (JString c) \<and>
           get_prop parsed ''objection_detected'' = Some (JString ob) \<and>
           get_prop parsed ''handoff_required'' = Some (JBool h)"
proof -
  from assms have a:
    "truthy (get_prop parsed ''response'')" "typeof (get_prop parsed ''response'') = TString"
    "truthy (get_prop parsed ''intent'')" "typeof (get_prop parsed ''intent'') = TString"
    "typeof (get_prop parsed ''interest_score_delta'') = TNumber"
    "typeof (get_prop parsed ''course_detected'') = TString"
    "typeof (get_prop parsed ''objection_detected'') = TString"
    "typeof (get_prop parsed ''handoff_required'') = TBoolean"
    by (auto simp: isValid_def split: if_splits)
  from typeof_string [OF a(2)] a(1)
  obtain r where r: "get_prop parsed ''response'' = Some (JString r)" "r \<noteq> []"
    by auto
  from typeof_string [OF a(4)] a(3)
  obtain i where i: "get_prop parsed ''intent'' = Some (JString i)" "i \<noteq> []"
    by auto
  from typeof_number [OF a(5)]
  obtain d where d: "get_prop parsed ''interest_score_delta'' = Some (JNumber d)"
    by auto
  from typeof_string [OF a(6)]
  obtain c where c: "get_prop parsed ''course_detected'' = Some (JString c)"
    by auto
  from typeof_string [OF a(7)]
  obtain ob where ob: "get_prop parsed ''objection_detected'' = Some (JString ob)"
    by auto
  from typeof_boolean [OF a(8)]
  obtain h where h: "get_prop parsed ''handoff_required'' = Some (JBool h)"
    by auto
  from r i d c ob h show ?thesis by blast
qed

lemma isValid_delta:
  assumes "isValid parsed = Inr True"
  shows "\<exists>d. get_prop parsed ''interest_score_delta'' = Some (JNumber d)"
proof -
  from assms have "typeof (get_prop parsed ''interest_score_delta'') = TNumber"
    by (auto simp: isValid_def split: if_splits)
  then show ?thesis by (rule typeof_number)
qed

lemma parse_reply_accepts:
  assumes "parse_reply parse reply = Inr r"
  shows "\<exists>m parsed. match_json (trim reply) = Some m \<and> parse m = Inr parsed \<and>
           isValid parsed = Inr True \<and> r = record_of parsed"
  using assms
  by (auto simp: parse_reply_def split: option.splits sum.splits if_splits)

lemma generate_delta_50:
  "generateAIResponse llm_delta_50 hist ''[Source 1]: B.Tech admissions are open.'' new_llm =
     (record_of parsed_delta_50,
      \<lparr>model = True,
       invocations = [build_messages hist ''[Source 1]: B.Tech admissions are open.'']\<rparr>)"
  using not_no_context_doc match_delta_50 isValid_delta_50
  by (simp add: generateAIResponse_def generate_try_def getModel_def llm_delta_50_def
      example_llm_def new_llm_def parse_reply_def)

section \<open>Claims about generation\<close>

text \<open>
  C1. When the retrieved context is the no-match sentinel or the retrieval-failure
  sentinel, \<open>generateAIResponse\<close> returns the fixed handoff record, whose
  \<open>handoff_required\<close> is true, and leaves the service state as it was: the log of
  calls to the chat model has no new entry. In \<open>processMessage\<close>, whatever the
  inbound message, a turn whose retrieval gave a sentinel carries the handoff record
  and has made no call to the chat model.
\<close>

theorem C1_grounding_gate:
  assumes "retrievedContext = no_match_sentinel \<or> retrievedContext = retrieval_failure_sentinel"
  shows "generateAIResponse env conversationHistory retrievedContext st = (handoff_response, st) \<and>
         handoff_required (fst (generateAIResponse env conversationHistory retrievedContext st)) \<and>
         invocations (snd (generateAIResponse env conversationHistory retrievedContext st)) =
           invocations st \<and>
         (fst (retrieveContext (rag tenv) userMessage 3 [] (rag_st w)) = retrievedContext \<longrightarrow>
          turn_begin tenv i userMessage w = (Inr p, w') \<longrightarrow>
          aiResult p = handoff_response \<and> llm_st w' = llm_st w)"
proof -
  have gate: "no_context retrievedContext"
    using assms no_context_no_match no_context_failure by auto
  have g: "\<And>e h s. generateAIResponse e h retrievedContext s = (handoff_response, s)"
    by (rule generate_gate [OF gate])
  have "aiResult p = handoff_response \<and> llm_st w' = llm_st w"
    if r: "fst (retrieveContext (rag tenv) userMessage 3 [] (rag_st w)) = retrievedContext"
      and b: "turn_begin tenv i userMessage w = (Inr p, w')"
  proof -
    obtain rag' where rc: "retrieveContext (rag tenv) userMessage 3 [] (rag_st w) = (retrievedContext, rag')"
      using r by (cases "retrieveContext (rag tenv) userMessage 3 [] (rag_st w)") simp
    show ?thesis
      using b rc g
      by (auto simp: turn_begin_def Let_def split: option.splits)
  qed
  then show ?thesis
    using g by (simp add: handoff_response_def)
qed

theorem C1_grounding_gate_witness:
  "generateAIResponse llm_delta_50 [] retrieval_failure_sentinel new_llm =
     (handoff_response, new_llm) \<and>
   fst (retrieveContext rag_down ''What is the fee?'' 3 [] (rag_st example_world)) =
     retrieval_failure_sentinel \<and>
   fst (turn_begin (example_env llm_delta_50 rag_down 1000) 1 ''What is the fee?'' example_world) =
     Inr \<lparr>lead_read = example_lead, aiResult = handoff_response,
          updateData =
            build_update (example_env llm_delta_50 rag_down 1000) example_lead ''What is the fee?''
              [\<lparr>role = User, text = ''What is the fee?'', timestamp = None\<rparr>] handoff_response\<rparr> \<and>
   llm_st (snd (turn_begin (example_env llm_delta_50 rag_down 1000) 1 ''What is the fee?''
                  example_world)) = new_llm"
proof -
  let ?tenv = "example_env llm_delta_50 rag_down 1000"
  have b: "turn_begin ?tenv 1 ''What is the fee?'' example_world =
             (Inr \<lparr>lead_read = example_lead, aiResult = handoff_response,
                   updateData = build_update ?tenv example_lead ''What is the fee?''
                     [\<lparr>role = User, text = ''What is the fee?'', timestamp = None\<rparr>]
                     handoff_response\<rparr>,
              example_world)"
    using retrieve_down generate_gate [OF no_context_failure]
    by (simp add: turn_begin_def example_env_def example_world_def example_lead_def)
  have r: "fst (retrieveContext (rag ?tenv) ''What is the fee?'' 3 [] (rag_st example_world)) =
             retrieval_failure_sentinel"
    using retrieve_down by (simp add: example_env_def example_world_def)
  from C1_grounding_gate [of retrieval_failure_sentinel llm_delta_50 "[]" new_llm ?tenv
      "''What is the fee?''" example_world 1 _ example_world] r b
  show ?thesis
    by (simp add: example_env_def example_world_def)
qed

text \<open>
  C6. When the grounding gate lets the turn through and the chat model's reply holds no
  JSON object that can be located, or holds one in which one of the six required fields
  is absent or of the wrong primitive type, the \<^verbatim>\<open>try\<close> block throws, and
  \<open>generateAIResponse\<close> returns to its caller the whole fixed fallback record.
\<close>

theorem C6_invalid_output_fallback:
  assumes "\<not> no_context retrievedContext"
    and "invoke env (build_messages conversationHistory retrievedContext) = Inr reply"
    and "unusable_reply (JSON_parse env) reply"
  shows "fst (generateAIResponse env conversationHistory retrievedContext st) = fallback_response \<and>
         (\<exists>e st'. generate_try env conversationHistory retrievedContext st = (Inl e, st'))"
proof -
  obtain e st' where t: "generate_try env conversationHistory retrievedContext st = (Inl e, st')"
    using generate_unusable [OF assms] by blast
  from generate_try_throw [OF t] t show ?thesis by auto
qed

theorem C6_invalid_output_fallback_witness:
  "\<not> no_context ''[Source 1]: B.Tech admissions are open.'' \<and>
   unusable_reply (JSON_parse llm_no_objection) reply_no_objection \<and>
   get_prop parsed_no_objection ''objection_detected'' = None \<and>
   fst (generateAIResponse llm_no_objection [] ''[Source 1]: B.Tech admissions are open.'' new_llm) =
     fallback_response"
proof -
  have u: "unusable_reply (JSON_parse llm_no_objection) reply_no_objection"
    using match_no_objection
    by (simp add: unusable_reply_def llm_no_objection_def example_llm_def missing_or_mistyped_def
        required_fields_def parsed_no_objection_def)
  have i: "invoke llm_no_objection (build_messages [] ''[Source 1]: B.Tech admissions are open.'') =
             Inr reply_no_objection"
    by (simp add: llm_no_objection_def example_llm_def)
  from C6_invalid_output_fallback [OF not_no_context_doc i u, of new_llm] u not_no_context_doc
  show ?thesis
    by (simp add: parsed_no_objection_def)
qed

text \<open>
  C8, as the claim states it, fails: the validator tests only that
  \<open>interest_score_delta\<close> is a number. A reply with every field well typed and a delta
  of 50 is accepted and returned, not replaced by the fallback record.
\<close>

theorem C8_counterexample:
  "fst (generateAIResponse llm_delta_50 [] ''[Source 1]: B.Tech admissions are open.'' new_llm) =
     record_of parsed_delta_50 \<and>
   record_of parsed_delta_50 \<noteq> fallback_response \<and>
   interest_score_delta (record_of parsed_delta_50) = 50 \<and>
   \<not> (- 3 \<le> interest_score_delta (record_of parsed_delta_50) \<and>
      interest_score_delta (record_of parsed_delta_50) \<le> 3)"
  using generate_delta_50 [of "[]"]
  by (simp add: record_of_def parsed_delta_50_def fallback_response_def)

text \<open>
  C8, amended. Every record the validator accepts comes from a parsed object whose
  \<open>interest_score_delta\<close> is of type number, and carries that number; the validator
  puts no bound on it and does not ask for an integer: an object with the other five
  fields well typed is accepted whatever number its delta is.
\<close>

theorem C8_accepted_delta_is_number:
  "(parse_reply parse reply = Inr r \<longrightarrow>
      (\<exists>m parsed d. match_json (trim reply) = Some m \<and> parse m = Inr parsed \<and>
         get_prop parsed ''interest_score_delta'' = Some (JNumber d) \<and>
         interest_score_delta r = d)) \<and>
   isValid (JObject [(''response'', JString ''ok''), (''intent'', JString ''general''),
                     (''interest_score_delta'', JNumber x), (''course_detected'', JString ''''),
                     (''objection_detected'', JString ''''), (''handoff_required'', JBool False)]) =
     Inr True"
proof -
  have "\<exists>m parsed d. match_json (trim reply) = Some m \<and> parse m = Inr parsed \<and>
          get_prop parsed ''interest_score_delta'' = Some (JNumber d) \<and> interest_score_delta r = d"
    if a: "parse_reply parse reply = Inr r"
  proof -
    obtain m parsed where mp: "match_json (trim reply) = Some m" "parse m = Inr parsed"
      "isValid parsed = Inr True" "r = record_of parsed"
      using parse_reply_accepts [OF a] by blast
    obtain d where d: "get_prop parsed ''interest_score_delta'' = Some (JNumber d)"
      using isValid_delta [OF mp(3)] by blast
    have "interest_score_delta r = d"
      using mp(4) d by (simp add: record_of_def)
    with mp d show ?thesis by blast
  qed
  then show ?thesis by (simp add: isValid_def)
qed

theorem C8_accepted_delta_is_number_witness:
  "parse_reply (JSON_parse llm_delta_50) reply_delta_50 = Inr (record_of parsed_delta_50) \<and>
   (\<exists>m parsed d. match_json (trim reply_delta_50) = Some m \<and>
      JSON_parse llm_delta_50 m = Inr parsed \<and>
      get_prop parsed ''interest_score_delta'' = Some (JNumber d) \<and>
      interest_score_delta (record_of parsed_delta_50) = d)"
proof -
  have a: "parse_reply (JSON_parse llm_delta_50) reply_delta_50 = Inr (record_of parsed_delta_50)"
    using match_delta_50 isValid_delta_50
    by (simp add: parse_reply_def llm_delta_50_def example_llm_def)
  from C8_accepted_delta_is_number [of "JSON_parse llm_delta_50" reply_delta_50
      "record_of parsed_delta_50" 0] a
  show ?thesis by blast
qed

section \<open>The two parts of a turn\<close>

lemma turn_begin_Inr:
  assumes "turn_begin env i userMessage w = (Inr p, w')"
  shows "findById_error env = None \<and> map_of (leads w) i = Some (lead_read p) \<and>
         leads w' = leads w \<and> call_logs w' = call_logs w \<and>
         updateData p =
           build_update env (lead_read p) userMessage
             (transcript (lead_read p) @ [\<lparr>role = User, text = userMessage, timestamp = None\<rparr>])
             (aiResult p)"
  using assms
  by (auto simp: turn_begin_def Let_def split: option.splits prod.splits)

lemma turn_begin_found:
  assumes "findById_error env = None" and "map_of (leads w) i = Some l"
  shows "\<exists>p w'. turn_begin env i userMessage w = (Inr p, w') \<and> lead_read p = l \<and>
           aiResult p =
             fst (generateAIResponse (llm env)
                    (transcript l @ [\<lparr>role = User, text = userMessage, timestamp = None\<rparr>])
                    (fst (retrieveContext (rag env) userMessage 3 [] (rag_st w))) (llm_st w)) \<and>
           llm_st w' =
             snd (generateAIResponse (llm env)
                    (transcript l @ [\<lparr>role = User, text = userMessage, timestamp = None\<rparr>])
                    (fst (retrieveContext (rag env) userMessage 3 [] (rag_st w))) (llm_st w))"
  using assms
  by (auto simp: turn_begin_def Let_def split: option.splits prod.splits)

lemma turn_begin_leads: "leads (snd (turn_begin env i userMessage w)) = leads w"
  by (auto simp: turn_begin_def Let_def split: option.splits prod.splits)

lemma turn_commit_update_error:
  "findByIdAndUpdate_error env = Some e \<Longrightarrow> turn_commit env i userMessage p w = (Inl e, w)"
  by (simp add: turn_commit_def)

lemma turn_commit_store:
  assumes "findByIdAndUpdate_error env = None" and "map_of (leads w) i = Some l"
  shows "map_of (leads (snd (turn_commit env i userMessage p w))) =
           (map_of (leads w))(i \<mapsto> apply_update (updateData p) l)"
  using assms
  by (auto simp: turn_commit_def findByIdAndUpdate_def Let_def update_conv'
      split: option.splits prod.splits)

lemma turn_commit_create_error:
  assumes "findByIdAndUpdate_error env = None" and "create_error env = Some e"
  shows "fst (turn_commit env i userMessage p w) = Inl e"
  using assms
  by (auto simp: turn_commit_def Let_def split: option.splits prod.splits)

lemma turn_commit_Inr:
  assumes "turn_commit env i userMessage p w = (Inr r, w')"
  shows "findByIdAndUpdate_error env = None \<and> create_error env = None \<and>
         (\<exists>l. map_of (leads w) i = Some l \<and>
              map_of (leads w') = (map_of (leads w))(i \<mapsto> apply_update (updateData p) l) \<and>
              reply_response r = response (aiResult p) \<and>
              reply_handoff_required r = handoff_required (aiResult p))"
  using assms
  by (auto simp: turn_commit_def findByIdAndUpdate_def Let_def update_conv'
      split: option.splits prod.splits)

lemma turn_commit_ok:
  assumes "findByIdAndUpdate_error env = None" and "create_error env = None"
    and "map_of (leads w) i = Some l"
  shows "\<exists>r w'. turn_commit env i userMessage p w = (Inr r, w') \<and>
           reply_response r = response (aiResult p) \<and>
           reply_handoff_required r = handoff_required (aiResult p)"
  using assms
  by (auto simp: turn_commit_def findByIdAndUpdate_def Let_def split: option.splits prod.splits)

lemma processMessage_Inr:
  assumes "processMessage env i userMessage w = (Inr r, w')"
  shows "\<exists>p w1. turn_begin env i userMessage w = (Inr p, w1) \<and>
           turn_commit env i userMessage p w1 = (Inr r, w')"
  using assms
  by (auto simp: processMessage_def split: prod.splits sum.splits)

lemma build_update_score:
  "set_interest_score (build_update env l userMessage hist r) =
     max 0 (min 100 (interest_score l + interest_score_delta r))"
  by (simp add: build_update_def Let_def)

lemma build_update_push:
  "push_transcript (build_update env l userMessage hist r) =
     [\<lparr>role = User, text = userMessage, timestamp = Some (date_user env)\<rparr>,
      \<lparr>role = Assistant, text = response r, timestamp = Some (date_assistant env)\<rparr>]"
  by (simp add: build_update_def Let_def)

lemma generateSummary_bound: "length (generateSummary ts) \<le> 500"
  by (simp add: generateSummary_def)

lemma retrieve_empty_first:
  assumes "collection st \<or> getOrCreateCollection env = None"
    and "collection_query env
           \<lparr>queryTexts = [query], nResults = topK,
            where_filter = (if length f > 0 then Some f else None)\<rparr> =
         Inr \<lparr>documents = Some ([] # others)\<rparr>"
  shows "fst (retrieveContext env query topK f st) = []"
  using assms
  by (auto simp: retrieveContext_def retrieve_try_def initializeCollection_def Let_def
      split: option.splits)

lemma begin_down:
  "turn_begin (example_env l rag_down t) 1 userMessage example_world =
     (Inr \<lparr>lead_read = example_lead, aiResult = handoff_response,
           updateData = build_update (example_env l rag_down t) example_lead userMessage
             [\<lparr>role = User, text = userMessage, timestamp = None\<rparr>] handoff_response\<rparr>,
      example_world)"
  using retrieve_down generate_gate [OF no_context_failure]
  by (simp add: turn_begin_def example_env_def example_world_def example_lead_def)

lemma begin_delta_50:
  "turn_begin (example_env llm_delta_50 rag_one_document t) 1 userMessage example_world =
     (Inr \<lparr>lead_read = example_lead, aiResult = record_of parsed_delta_50,
           updateData = build_update (example_env llm_delta_50 rag_one_document t) example_lead
             userMessage [\<lparr>role = User, text = userMessage, timestamp = None\<rparr>]
             (record_of parsed_delta_50)\<rparr>,
      example_world
        \<lparr>llm_st := \<lparr>model = True,
                    invocations =
                      [build_messages [\<lparr>role = User, text = userMessage, timestamp = None\<rparr>]
                         ''[Source 1]: B.Tech admissions are open.'']\<rparr>,
         rag_st := \<lparr>collection = True\<rparr>\<rparr>)"
  using retrieve_one_document generate_delta_50
  by (simp add: turn_begin_def example_env_def example_world_def example_lead_def Let_def)

section \<open>Claims about a conversation turn\<close>

text \<open>
  C10. When the query succeeds and its first ranked list is empty, \<open>retrieveContext\<close>
  returns the empty string, which is not the no-match sentinel and does not close the
  grounding gate; with the chat model available (created, or the API key set), the turn
  then calls it once, with a system prompt built around the empty context.
\<close>

theorem C10_empty_match_reaches_generation:
  assumes "findById_error env = None" and "map_of (leads w) i = Some l"
    and "collection (rag_st w) \<or> getOrCreateCollection (rag env) = None"
    and "collection_query (rag env)
           \<lparr>queryTexts = [userMessage], nResults = 3, where_filter = None\<rparr> =
         Inr \<lparr>documents = Some ([] # others)\<rparr>"
    and "model (llm_st w) \<or> (\<exists>k. GROQ_API_KEY (llm env) = Some k \<and> k \<noteq> [])"
  shows "fst (retrieveContext (rag env) userMessage 3 [] (rag_st w)) = [] \<and>
         [] \<noteq> no_match_sentinel \<and> \<not> no_context [] \<and>
         invocations (llm_st (snd (turn_begin env i userMessage w))) =
           invocations (llm_st w) @
           [build_messages
              (transcript l @ [\<lparr>role = User, text = userMessage, timestamp = None\<rparr>]) []] \<and>
         content (hd (build_messages
              (transcript l @ [\<lparr>role = User, text = userMessage, timestamp = None\<rparr>]) [])) =
           systemPrompt_head @ systemPrompt_tail"
proof -
  have r: "fst (retrieveContext (rag env) userMessage 3 [] (rag_st w)) = []"
    using retrieve_empty_first [OF assms(3), of userMessage 3 "[]" others] assms(4) by simp
  obtain p w' where b: "turn_begin env i userMessage w = (Inr p, w')"
    and st: "llm_st w' =
      snd (generateAIResponse (llm env)
             (transcript l @ [\<lparr>role = User, text = userMessage, timestamp = None\<rparr>])
             (fst (retrieveContext (rag env) userMessage 3 [] (rag_st w))) (llm_st w))"
    using turn_begin_found [OF assms(1,2), of userMessage] by blast
  have "invocations (llm_st w') =
          invocations (llm_st w) @
          [build_messages
             (transcript l @ [\<lparr>role = User, text = userMessage, timestamp = None\<rparr>]) []]"
    using generate_invokes [OF not_no_context_empty assms(5)] st r by simp
  then show ?thesis
    using r b not_no_context_empty
    by (simp add: no_match_sentinel_def build_messages_def systemPrompt_def)
qed

theorem C10_empty_match_reaches_generation_witness:
  "fst (retrieveContext rag_no_match ''Tell me about hostels'' 3 [] \<lparr>collection = False\<rparr>) = [] \<and>
   invocations (llm_st (snd (turn_begin (example_env llm_delta_50 rag_no_match 1000) 1
                               ''Tell me about hostels'' example_world))) =
     [build_messages [\<lparr>role = User, text = ''Tell me about hostels'', timestamp = None\<rparr>] []]"
proof -
  let ?env = "example_env llm_delta_50 rag_no_match 1000"
  have a: "findById_error ?env = None" "map_of (leads example_world) 1 = Some example_lead"
    "collection (rag_st example_world) \<or> getOrCreateCollection (rag ?env) = None"
    "collection_query (rag ?env)
       \<lparr>queryTexts = [''Tell me about hostels''], nResults = 3, where_filter = None\<rparr> =
     Inr \<lparr>documents = Some ([] # [])\<rparr>"
    "model (llm_st example_world) \<or> (\<exists>k. GROQ_API_KEY (llm ?env) = Some k \<and> k \<noteq> [])"
    by (simp_all add: example_env_def example_world_def rag_no_match_def llm_delta_50_def
        example_llm_def)
  from C10_empty_match_reaches_generation [OF a]
  show ?thesis
    by (simp add: example_env_def example_world_def example_lead_def new_llm_def)
qed

lemma apply_update_score: "interest_score (apply_update u l) = set_interest_score u"
  by (simp add: apply_update_def)

lemma apply_update_transcript:
  "transcript (apply_update u l) = transcript l @ push_transcript u"
  by (simp add: apply_update_def)

lemma turn_begin_score_bounds:
  assumes "turn_begin env i userMessage w = (Inr p, w')"
  shows "set_interest_score (updateData p) =
           max 0 (min 100 (interest_score (lead_read p) + interest_score_delta (aiResult p))) \<and>
         0 \<le> set_interest_score (updateData p) \<and> set_interest_score (updateData p) \<le> 100"
  using turn_begin_Inr [OF assms] by (simp add: build_update_score)

lemma turn_commit_leads_cases:
  "leads (snd (turn_commit env i userMessage p w)) = leads w \<or>
   (\<exists>l. map_of (leads w) i = Some l \<and>
        map_of (leads (snd (turn_commit env i userMessage p w))) =
          (map_of (leads w))(i \<mapsto> apply_update (updateData p) l))"
  by (auto simp: turn_commit_def findByIdAndUpdate_def Let_def update_conv'
      split: option.splits prod.splits)

lemma turn_commit_scores:
  assumes "0 \<le> set_interest_score (updateData p)" and "set_interest_score (updateData p) \<le> 100"
    and "scores_in_range w"
  shows "scores_in_range (snd (turn_commit env i userMessage p w))"
  using turn_commit_leads_cases [of env i userMessage p w] assms
  by (auto simp: scores_in_range_def apply_update_score split: if_splits)

lemma turn_begin_scores:
  "scores_in_range w \<Longrightarrow> scores_in_range (snd (turn_begin env i userMessage w))"
  by (simp add: scores_in_range_def turn_begin_leads)

lemma processMessage_scores:
  assumes "scores_in_range w"
  shows "scores_in_range (snd (processMessage env i userMessage w))"
proof (cases "turn_begin env i userMessage w")
  case (Pair res w1)
  have w1: "scores_in_range w1"
    using turn_begin_scores [OF assms, of env i userMessage] Pair by simp
  show ?thesis
  proof (cases res)
    case (Inl e)
    with Pair w1 show ?thesis by (simp add: processMessage_def)
  next
    case (Inr p)
    with Pair have b: "turn_begin env i userMessage w = (Inr p, w1)" by simp
    from turn_begin_score_bounds [OF b] w1
    have "scores_in_range (snd (turn_commit env i userMessage p w1))"
      by (intro turn_commit_scores) simp_all
    with b show ?thesis by (simp add: processMessage_def)
  qed
qed

lemma run_turns_scores:
  "scores_in_range w \<Longrightarrow> scores_in_range (run_turns rqs w)"
  by (induction rqs arbitrary: w) (simp_all add: processMessage_scores)

lemma task_step_scores:
  assumes "scores_in_range w" and "task_score_ok t"
  shows "scores_in_range (snd (task_step rq t w)) \<and> task_score_ok (fst (task_step rq t w))"
proof (cases t)
  case Ready
  show ?thesis
  proof (cases "turn_begin (req_env rq) (req_lead rq) (req_message rq) w")
    case (Pair res w1)
    have w1: "scores_in_range w1"
      using turn_begin_scores [OF assms(1), of "req_env rq" "req_lead rq" "req_message rq"] Pair
      by simp
    show ?thesis
    proof (cases res)
      case (Inl e)
      with Pair Ready w1 show ?thesis by (simp add: task_step_def task_score_ok_def)
    next
      case (Inr p)
      with Pair have "turn_begin (req_env rq) (req_lead rq) (req_message rq) w = (Inr p, w1)"
        by simp
      from turn_begin_score_bounds [OF this] Pair Inr Ready w1 show ?thesis
        by (simp add: task_step_def task_score_ok_def)
    qed
  qed
next
  case (Waiting p)
  with assms(2) have b: "0 \<le> set_interest_score (updateData p)"
    "set_interest_score (updateData p) \<le> 100"
    by (simp_all add: task_score_ok_def)
  have "scores_in_range (snd (turn_commit (req_env rq) (req_lead rq) (req_message rq) p w))"
    by (rule turn_commit_scores [OF b assms(1)])
  with Waiting show ?thesis
    by (auto simp: task_step_def task_score_ok_def split: prod.splits sum.splits)
next
  case (Done p r)
  with assms show ?thesis by (simp add: task_step_def)
next
  case (Failed e)
  with assms show ?thesis by (simp add: task_step_def)
qed

lemma run_two_scores:
  "scores_in_range w \<Longrightarrow> task_score_ok t1 \<Longrightarrow> task_score_ok t2 \<Longrightarrow>
   scores_in_range (snd (snd (run_two r1 r2 sched (t1, t2, w))))"
proof (induction sched arbitrary: t1 t2 w)
  case Nil
  then show ?case by simp
next
  case (Cons b bs)
  show ?case
  proof (cases b)
    case True
    obtain t1' w' where s: "task_step r1 t1 w = (t1', w')" by (cases "task_step r1 t1 w")
    from task_step_scores [OF Cons.prems(1,2), of r1] s
    have "scores_in_range w'" "task_score_ok t1'" by simp_all
    from Cons.IH [OF this Cons.prems(3)] True s show ?thesis by simp
  next
    case False
    obtain t2' w' where s: "task_step r2 t2 w = (t2', w')" by (cases "task_step r2 t2 w")
    from task_step_scores [OF Cons.prems(1,3), of r2] s
    have "scores_in_range w'" "task_score_ok t2'" by simp_all
    from Cons.IH [OF this(1) Cons.prems(2) this(2)] False s show ?thesis by simp
  qed
qed

lemma scores_example_world: "scores_in_range example_world"
  by (simp add: scores_in_range_def example_world_def example_lead_def)

text \<open>
  C5. The update of a turn stores, whenever it is executed and at whatever moment,
  the score \<open>max 0 (min 100 (current + delta))\<close>, where \<open>current\<close> is the score the turn
  read and \<open>delta\<close> the delta of the generation step, whatever its value; the stored
  score then lies in \<open>[0,100]\<close>. Hence, from a collection whose scores lie in
  \<open>[0,100]\<close>, they still do after any sequence of turns, and after two turns interleaved
  under any schedule.
\<close>

theorem C5_score_clamped:
  "(turn_begin env i userMessage w = (Inr p, w1) \<longrightarrow>
    findByIdAndUpdate_error env = None \<longrightarrow>
    map_of (leads w2) i = Some l2 \<longrightarrow>
      (\<exists>l3. map_of (leads (snd (turn_commit env i userMessage p w2))) i = Some l3 \<and>
         interest_score l3 =
           max 0 (min 100 (interest_score (lead_read p) + interest_score_delta (aiResult p))) \<and>
         0 \<le> interest_score l3 \<and> interest_score l3 \<le> 100)) \<and>
   (scores_in_range w \<longrightarrow> scores_in_range (run_turns rqs w)) \<and>
   (scores_in_range w \<longrightarrow> scores_in_range (snd (snd (run_two r1 r2 sched (Ready, Ready, w)))))"
proof -
  have one: "\<exists>l3. map_of (leads (snd (turn_commit env i userMessage p w2))) i = Some l3 \<and>
         interest_score l3 =
           max 0 (min 100 (interest_score (lead_read p) + interest_score_delta (aiResult p))) \<and>
         0 \<le> interest_score l3 \<and> interest_score l3 \<le> 100"
    if b: "turn_begin env i userMessage w = (Inr p, w1)"
      and u: "findByIdAndUpdate_error env = None"
      and l: "map_of (leads w2) i = Some l2"
  proof -
    have "map_of (leads (snd (turn_commit env i userMessage p w2))) i =
            Some (apply_update (updateData p) l2)"
      using turn_commit_store [OF u l, of userMessage p] by simp
    with turn_begin_score_bounds [OF b] show ?thesis
      by (simp add: apply_update_score)
  qed
  have two: "scores_in_range (snd (snd (run_two r1 r2 sched (Ready, Ready, w))))"
    if "scores_in_range w"
    using that by (intro run_two_scores) (simp_all add: task_score_ok_def)
  from one two run_turns_scores show ?thesis by blast
qed

theorem C5_score_clamped_witness:
  "interest_score example_lead = 80 \<and> interest_score_delta (record_of parsed_delta_50) = 50 \<and>
   (\<exists>l3. map_of (leads (snd (turn_commit (example_env llm_delta_50 rag_one_document 1000) 1
                               ''Tell me about B.Tech''
                               (projr (fst (turn_begin (example_env llm_delta_50 rag_one_document 1000)
                                              1 ''Tell me about B.Tech'' example_world)))
                               example_world))) 1 = Some l3 \<and>
      interest_score l3 = 100) \<and>
   scores_in_range
     (run_turns [\<lparr>req_env = example_env llm_delta_50 rag_one_document 1000, req_lead = 1,
                  req_message = ''Tell me about B.Tech''\<rparr>] example_world) \<and>
   scores_in_range
     (snd (snd (run_two
        \<lparr>req_env = example_env llm_delta_50 rag_one_document 1000, req_lead = 1,
          req_message = ''Tell me about B.Tech''\<rparr>
        \<lparr>req_env = example_env llm_delta_50 rag_down 2000, req_lead = 1,
          req_message = ''What is the fee?''\<rparr>
        [True, False, False, True] (Ready, Ready, example_world))))"
proof -
  let ?env = "example_env llm_delta_50 rag_one_document 1000"
  let ?msg = "''Tell me about B.Tech''"
  let ?p = "projr (fst (turn_begin ?env 1 ?msg example_world))"
  have b: "turn_begin ?env 1 ?msg example_world = (Inr ?p, snd (turn_begin ?env 1 ?msg example_world))"
    using begin_delta_50 [of 1000 ?msg] by simp
  have p: "lead_read ?p = example_lead" "aiResult ?p = record_of parsed_delta_50"
    using begin_delta_50 [of 1000 ?msg] by simp_all
  have u: "findByIdAndUpdate_error ?env = None" by (simp add: example_env_def)
  have l: "map_of (leads example_world) 1 = Some example_lead" by (simp add: example_world_def)
  have d: "interest_score example_lead = 80" "interest_score_delta (record_of parsed_delta_50) = 50"
    by (simp_all add: example_lead_def record_of_def parsed_delta_50_def)
  note T = C5_score_clamped [of ?env 1 ?msg example_world ?p
      "snd (turn_begin ?env 1 ?msg example_world)" example_world example_lead
      "[\<lparr>req_env = ?env, req_lead = 1, req_message = ?msg\<rparr>]"
      "\<lparr>req_env = ?env, req_lead = 1, req_message = ?msg\<rparr>"
      "\<lparr>req_env = example_env llm_delta_50 rag_down 2000, req_lead = 1,
        req_message = ''What is the fee?''\<rparr>" "[True, False, False, True]"]
  from T b u l p d have A:
    "\<exists>l3. map_of (leads (snd (turn_commit ?env 1 ?msg ?p example_world))) 1 = Some l3 \<and>
       interest_score l3 = 100"
    by (auto simp del: run_two.simps run_turns.simps)
  from T scores_example_world have B:
    "scores_in_range (run_turns [\<lparr>req_env = ?env, req_lead = 1, req_message = ?msg\<rparr>]
       example_world)"
    by (simp del: run_two.simps run_turns.simps)
  from T scores_example_world have C:
    "scores_in_range
      (snd (snd (run_two
        \<lparr>req_env = ?env, req_lead = 1, req_message = ?msg\<rparr>
        \<lparr>req_env = example_env llm_delta_50 rag_down 2000, req_lead = 1,
          req_message = ''What is the fee?''\<rparr>
        [True, False, False, True] (Ready, Ready, example_world))))"
    by (simp del: run_two.simps run_turns.simps)
  from A B C d show ?thesis
    by (auto simp del: run_two.simps run_turns.simps)
qed

lemma process_example_4:
  "map_of (leads (snd (processMessage (example_env llm_delta_50 rag_down 1000) 1
                        ''What is the fee?'' example_world_4))) 1 =
     Some (apply_update
             (build_update (example_env llm_delta_50 rag_down 1000) example_lead_4
                ''What is the fee?''
                (transcript example_lead_4 @
                 [\<lparr>role = User, text = ''What is the fee?'', timestamp = None\<rparr>])
                handoff_response)
             example_lead_4)"
proof -
  let ?env = "example_env llm_delta_50 rag_down 1000"
  have e: "findById_error ?env = None" "findByIdAndUpdate_error ?env = None"
    by (simp_all add: example_env_def)
  have l: "map_of (leads example_world_4) 1 = Some example_lead_4"
    by (simp add: example_world_4_def)
  have r: "fst (retrieveContext (rag ?env) ''What is the fee?'' 3 [] (rag_st example_world_4)) =
             retrieval_failure_sentinel"
    using retrieve_down by (simp add: example_env_def example_world_4_def example_world_def)
  obtain p w1 where b: "turn_begin ?env 1 ''What is the fee?'' example_world_4 = (Inr p, w1)"
    and p: "lead_read p = example_lead_4"
      "aiResult p =
         fst (generateAIResponse (llm ?env)
                (transcript example_lead_4 @
                 [\<lparr>role = User, text = ''What is the fee?'', timestamp = None\<rparr>])
                (fst (retrieveContext (rag ?env) ''What is the fee?'' 3 [] (rag_st example_world_4)))
                (llm_st example_world_4))"
    using turn_begin_found [OF e(1) l, of "''What is the fee?''"] by blast
  have a: "aiResult p = handoff_response"
    using p(2) r generate_gate [OF no_context_failure] by simp
  have w1: "map_of (leads w1) 1 = Some example_lead_4"
    using turn_begin_Inr [OF b] l by simp
  have u: "updateData p =
             build_update ?env example_lead_4 ''What is the fee?''
               (transcript example_lead_4 @
                [\<lparr>role = User, text = ''What is the fee?'', timestamp = None\<rparr>])
               handoff_response"
    using turn_begin_Inr [OF b] p(1) a by simp
  have "map_of (leads (snd (turn_commit ?env 1 ''What is the fee?'' p w1))) 1 =
          Some (apply_update (updateData p) example_lead_4)"
    using turn_commit_store [OF e(2) w1, of "''What is the fee?''" p] by simp
  with b u show ?thesis by (simp add: processMessage_def)
qed

text \<open>
  C9, as the claim states it, fails: a lead whose stored transcript has exactly four
  entries (so the pre-turn history does not exceed four) has its summary set by the turn.
\<close>

theorem C9_counterexample:
  "length (transcript example_lead_4) = 4 \<and> \<not> 4 < length (transcript example_lead_4) \<and>
   summary example_lead_4 = [] \<and>
   map_option summary
     (map_of (leads (snd (processMessage (example_env llm_delta_50 rag_down 1000) 1
                            ''What is the fee?'' example_world_4))) 1) =
     Some ''user: Hi | assistant: Hello | user: Fees? | assistant: Ask a counselor | user: What is the fee? | assistant: I don't have that information in the knowledge base. Let me connect you with a counselor who can help you better.''"
  using process_example_4
  by (simp add: example_lead_4_def example_lead_def apply_update_def build_update_def
      generateSummary_def slice_last_def role_name_def handoff_response_def Let_def)

lemma processMessage_ok:
  assumes "findById_error env = None" and "map_of (leads w) i = Some l"
    and "findByIdAndUpdate_error env = None" and "create_error env = None"
  shows "\<exists>r w' p w1. processMessage env i userMessage w = (Inr r, w') \<and>
           turn_begin env i userMessage w = (Inr p, w1) \<and>
           reply_response r = response (aiResult p) \<and>
           reply_handoff_required r = handoff_required (aiResult p)"
proof -
  obtain p w1 where b: "turn_begin env i userMessage w = (Inr p, w1)"
    using turn_begin_found [OF assms(1,2), of userMessage] by blast
  have "map_of (leads w1) i = Some l"
    using turn_begin_Inr [OF b] assms(2) by simp
  from turn_commit_ok [OF assms(3,4) this, of userMessage p] b show ?thesis
    by (auto simp: processMessage_def)
qed

text \<open>
  C9, amended. A successful turn sets the summary exactly when the stored transcript it
  read has at least four entries, that is, when the conversation history (the stored
  transcript and the new user turn) exceeds four entries. The summary it sets is
  computed from the last six entries of that history followed by the new assistant
  turn, and is cut to at most 500 characters; otherwise the summary stays as it was.
\<close>

theorem C9_summary_threshold:
  assumes "processMessage env i userMessage w = (Inr r, w')"
  shows "\<exists>l l' p w1.
           map_of (leads w) i = Some l \<and> map_of (leads w') i = Some l' \<and>
           turn_begin env i userMessage w = (Inr p, w1) \<and>
           (set_summary (updateData p) \<noteq> None \<longleftrightarrow> 4 \<le> length (transcript l)) \<and>
           (4 \<le> length (transcript l) \<longrightarrow>
              summary l' =
                generateSummary
                  (slice_last 6
                     (transcript l @ [\<lparr>role = User, text = userMessage, timestamp = None\<rparr>]) @
                   [\<lparr>role = Assistant, text = reply_response r,
                     timestamp = Some (date_assistant env)\<rparr>]) \<and>
              length (summary l') \<le> 500) \<and>
           (length (transcript l) < 4 \<longrightarrow> summary l' = summary l)"
proof -
  obtain p w1 where b: "turn_begin env i userMessage w = (Inr p, w1)"
    and c: "turn_commit env i userMessage p w1 = (Inr r, w')"
    using processMessage_Inr [OF assms] by blast
  let ?l = "lead_read p"
  let ?hist = "transcript ?l @ [\<lparr>role = User, text = userMessage, timestamp = None\<rparr>]"
  from turn_begin_Inr [OF b]
  have l: "map_of (leads w) i = Some ?l" and w1: "leads w1 = leads w"
    and u: "updateData p = build_update env ?l userMessage ?hist (aiResult p)"
    by simp_all
  from turn_commit_Inr [OF c] l w1
  have l': "map_of (leads w') i = Some (apply_update (updateData p) ?l)"
    and rr: "reply_response r = response (aiResult p)"
    by auto
  have s: "set_summary (updateData p) =
             (if 4 \<le> length (transcript ?l)
              then Some (generateSummary
                     (slice_last 6 ?hist @
                      [\<lparr>role = Assistant, text = reply_response r,
                        timestamp = Some (date_assistant env)\<rparr>]))
              else None)"
    using u rr by (auto simp: build_update_def Let_def)
  have "summary (apply_update (updateData p) ?l) =
          (if 4 \<le> length (transcript ?l)
           then generateSummary
                  (slice_last 6 ?hist @
                   [\<lparr>role = Assistant, text = reply_response r,
                     timestamp = Some (date_assistant env)\<rparr>])
           else summary ?l)"
    using s by (simp add: apply_update_def)
  with l l' b s show ?thesis
    by (auto simp: generateSummary_bound)
qed

theorem C9_summary_threshold_witness:
  "\<exists>r w' l'.
     processMessage (example_env llm_delta_50 rag_down 1000) 1 ''What is the fee?''
       example_world_4 = (Inr r, w') \<and>
     length (transcript example_lead_4) = 4 \<and>
     map_of (leads w') 1 = Some l' \<and> length (summary l') \<le> 500 \<and>
     summary l' =
       generateSummary
         (slice_last 6
            (transcript example_lead_4 @
             [\<lparr>role = User, text = ''What is the fee?'', timestamp = None\<rparr>]) @
          [\<lparr>role = Assistant, text = reply_response r, timestamp = Some 1001\<rparr>])"
proof -
  let ?env = "example_env llm_delta_50 rag_down 1000"
  have e: "findById_error ?env = None" "findByIdAndUpdate_error ?env = None"
    "create_error ?env = None"
    by (simp_all add: example_env_def)
  have l: "map_of (leads example_world_4) 1 = Some example_lead_4"
    by (simp add: example_world_4_def)
  have n: "length (transcript example_lead_4) = 4"
    by (simp add: example_lead_4_def)
  obtain r w' where m: "processMessage ?env 1 ''What is the fee?'' example_world_4 = (Inr r, w')"
    using processMessage_ok [OF e(1) l e(2,3), of "''What is the fee?''"] by blast
  from C9_summary_threshold [OF m] l n
  obtain l' where "map_of (leads w') 1 = Some l'" "length (summary l') \<le> 500"
    "summary l' =
       generateSummary
         (slice_last 6
            (transcript example_lead_4 @
             [\<lparr>role = User, text = ''What is the fee?'', timestamp = None\<rparr>]) @
          [\<lparr>role = Assistant, text = reply_response r,
            timestamp = Some (date_assistant ?env)\<rparr>])"
    by auto
  with m n show ?thesis
    by (auto simp: example_env_def)
qed

text \<open>
  C7. With the lead found, a throw of the store write (the update of the lead, or the
  creation of the call log after it) is the result of \<open>processMessage\<close>: the error
  reaches the caller. A throw inside retrieval never does: \<open>retrieveContext\<close> answers
  it with the failure sentinel, and when the store works the turn ends with the handoff
  reply.
\<close>

theorem C7_failure_handling:
  assumes "findById_error env = None" and "map_of (leads w) i = Some l"
  shows "(findByIdAndUpdate_error env = Some e \<longrightarrow>
            fst (processMessage env i userMessage w) = Inl e) \<and>
         (findByIdAndUpdate_error env = None \<longrightarrow> create_error env = Some e \<longrightarrow>
            fst (processMessage env i userMessage w) = Inl e) \<and>
         (fst (retrieve_try (rag env) userMessage 3 [] (rag_st w)) = Inl e' \<longrightarrow>
            fst (retrieveContext (rag env) userMessage 3 [] (rag_st w)) =
              retrieval_failure_sentinel \<and>
            (findByIdAndUpdate_error env = None \<longrightarrow> create_error env = None \<longrightarrow>
               (\<exists>r w'. processMessage env i userMessage w = (Inr r, w') \<and>
                  reply_response r = response handoff_response \<and>
                  reply_handoff_required r)))"
proof -
  obtain p w1 where b: "turn_begin env i userMessage w = (Inr p, w1)"
    and a: "aiResult p =
      fst (generateAIResponse (llm env)
             (transcript l @ [\<lparr>role = User, text = userMessage, timestamp = None\<rparr>])
             (fst (retrieveContext (rag env) userMessage 3 [] (rag_st w))) (llm_st w))"
    using turn_begin_found [OF assms, of userMessage] by blast
  have one: "fst (processMessage env i userMessage w) = Inl e"
    if "findByIdAndUpdate_error env = Some e"
    using turn_commit_update_error [OF that] b by (simp add: processMessage_def)
  have two: "fst (processMessage env i userMessage w) = Inl e"
    if "findByIdAndUpdate_error env = None" and "create_error env = Some e"
    using turn_commit_create_error [OF that] b by (simp add: processMessage_def)
  have three: "fst (retrieveContext (rag env) userMessage 3 [] (rag_st w)) =
                 retrieval_failure_sentinel"
    if "fst (retrieve_try (rag env) userMessage 3 [] (rag_st w)) = Inl e'"
    using that by (cases "retrieve_try (rag env) userMessage 3 [] (rag_st w)")
      (simp add: retrieveContext_def)
  have four: "\<exists>r w'. processMessage env i userMessage w = (Inr r, w') \<and>
                reply_response r = response handoff_response \<and> reply_handoff_required r"
    if f: "fst (retrieve_try (rag env) userMessage 3 [] (rag_st w)) = Inl e'"
      and u: "findByIdAndUpdate_error env = None" and c: "create_error env = None"
  proof -
    have h: "aiResult p = handoff_response"
      using a three [OF f] generate_gate [OF no_context_failure] by simp
    from processMessage_ok [OF assms u c, of userMessage] b h show ?thesis
      by (auto simp: handoff_response_def)
  qed
  from one two three four show ?thesis by blast
qed

theorem C7_failure_handling_witness:
  "fst (processMessage
          ((example_env llm_delta_50 rag_one_document 1000)
             \<lparr>findByIdAndUpdate_error := Some (Error ''write failed'')\<rparr>)
          1 ''Tell me about B.Tech'' example_world) = Inl (Error ''write failed'') \<and>
   fst (processMessage
          ((example_env llm_delta_50 rag_one_document 1000)
             \<lparr>create_error := Some (Error ''write failed'')\<rparr>)
          1 ''Tell me about B.Tech'' example_world) = Inl (Error ''write failed'') \<and>
   fst (retrieve_try rag_down ''What is the fee?'' 3 [] (rag_st example_world)) =
     Inl (Error ''ECONNREFUSED'') \<and>
   (\<exists>r w'. processMessage (example_env llm_delta_50 rag_down 1000) 1 ''What is the fee?''
              example_world = (Inr r, w') \<and>
      reply_response r = response handoff_response \<and> reply_handoff_required r)"
proof -
  let ?env = "example_env llm_delta_50 rag_one_document 1000"
  let ?envU = "?env\<lparr>findByIdAndUpdate_error := Some (Error ''write failed'')\<rparr>"
  let ?envC = "?env\<lparr>create_error := Some (Error ''write failed'')\<rparr>"
  let ?envR = "example_env llm_delta_50 rag_down 1000"
  have l: "map_of (leads example_world) 1 = Some example_lead"
    by (simp add: example_world_def)
  have f: "fst (retrieve_try (rag ?envR) ''What is the fee?'' 3 [] (rag_st example_world)) =
             Inl (Error ''ECONNREFUSED'')"
    by (simp add: retrieve_try_def rag_down_def initializeCollection_def example_env_def
        example_world_def)
  have u: "fst (processMessage ?envU 1 ''Tell me about B.Tech'' example_world) =
             Inl (Error ''write failed'')"
    using C7_failure_handling [of ?envU example_world 1 example_lead "Error ''write failed''"] l
    by (simp add: example_env_def)
  have c: "fst (processMessage ?envC 1 ''Tell me about B.Tech'' example_world) =
             Inl (Error ''write failed'')"
    using C7_failure_handling [of ?envC example_world 1 example_lead "Error ''write failed''"] l
    by (simp add: example_env_def)
  have r: "\<exists>r w'. processMessage ?envR 1 ''What is the fee?'' example_world = (Inr r, w') \<and>
             reply_response r = response handoff_response \<and> reply_handoff_required r"
    using C7_failure_handling [of ?envR example_world 1 example_lead _ "''What is the fee?''"
        "Error ''ECONNREFUSED''"] l f
    by (simp add: example_env_def)
  from u c r f show ?thesis
    by (simp add: example_env_def)
qed

section \<open>The transcript under one turn and under two interleaved turns\<close>

lemma turn_begin_entries:
  assumes "turn_begin env i userMessage w = (Inr p, w')"
  shows "push_transcript (updateData p) = turn_entries env userMessage (aiResult p)"
  using turn_begin_Inr [OF assms] by (simp add: build_update_push turn_entries_def)

lemma task_step_entries_ok:
  assumes "task_entries_ok rq t"
  shows "task_entries_ok rq (fst (task_step rq t w))"
proof (cases t)
  case Ready
  show ?thesis
  proof (cases "turn_begin (req_env rq) (req_lead rq) (req_message rq) w")
    case (Pair res w1)
    show ?thesis
    proof (cases res)
      case (Inl e)
      with Pair Ready show ?thesis by (simp add: task_step_def task_entries_ok_def)
    next
      case (Inr p)
      with Pair have "turn_begin (req_env rq) (req_lead rq) (req_message rq) w = (Inr p, w1)"
        by simp
      from turn_begin_entries [OF this] Pair Inr Ready show ?thesis
        by (simp add: task_step_def task_entries_ok_def)
    qed
  qed
next
  case (Waiting p)
  with assms show ?thesis
    by (auto simp: task_step_def task_entries_ok_def split: prod.splits sum.splits)
next
  case (Done p r)
  with assms show ?thesis by (simp add: task_step_def)
next
  case (Failed e)
  with assms show ?thesis by (simp add: task_step_def)
qed

text \<open>A step of one task keeps the invariant, whatever the state of the other task.\<close>

lemma task_step_first:
  assumes "transcript_inv (req_lead rq) initial (t1, t2, w)"
  shows "transcript_inv (req_lead rq) initial (fst (task_step rq t1 w), t2, snd (task_step rq t1 w))"
proof (cases t1)
  case Ready
  have "leads (snd (task_step rq Ready w)) = leads w"
    using turn_begin_leads [of "req_env rq" "req_lead rq" "req_message rq" w]
    by (auto simp: task_step_def split: prod.splits sum.splits)
  moreover have "has_failed (fst (task_step rq Ready w)) \<or> appended (fst (task_step rq Ready w)) = []"
    by (auto simp: task_step_def appended_def has_failed_def split: prod.splits sum.splits)
  ultimately show ?thesis
    using assms Ready
    by (auto simp: transcript_inv_def appended_def has_failed_def)
next
  case (Waiting p)
  show ?thesis
  proof (cases "turn_commit (req_env rq) (req_lead rq) (req_message rq) p w")
    case (Pair res w')
    show ?thesis
    proof (cases res)
      case (Inl e)
      with Pair Waiting show ?thesis
        by (simp add: task_step_def transcript_inv_def has_failed_def)
    next
      case (Inr r)
      with Pair have c: "turn_commit (req_env rq) (req_lead rq) (req_message rq) p w = (Inr r, w')"
        by simp
      from turn_commit_Inr [OF c] obtain l where
        l: "map_of (leads w) (req_lead rq) = Some l"
        and l': "map_of (leads w') (req_lead rq) = Some (apply_update (updateData p) l)"
        by auto
      have s: "task_step rq t1 w = (Done p r, w')"
        using Waiting c by (simp add: task_step_def)
      from assms Waiting l
      have "has_failed t2 \<or> transcript l = initial @ appended t2"
        by (auto simp: transcript_inv_def appended_def has_failed_def)
      then show ?thesis
        using s l' by (auto simp: transcript_inv_def appended_def apply_update_transcript)
    qed
  qed
next
  case (Done p r)
  with assms show ?thesis by (simp add: task_step_def)
next
  case (Failed e)
  with assms show ?thesis by (simp add: task_step_def)
qed

lemma transcript_inv_swap:
  "transcript_inv i initial (t1, t2, w) = transcript_inv i initial (t2, t1, w)"
  by (auto simp: transcript_inv_def)

lemma task_step_second:
  assumes "transcript_inv (req_lead rq) initial (t1, t2, w)"
  shows "transcript_inv (req_lead rq) initial (t1, fst (task_step rq t2 w), snd (task_step rq t2 w))"
proof -
  obtain t2' w' where s: "task_step rq t2 w = (t2', w')" by (cases "task_step rq t2 w")
  have "transcript_inv (req_lead rq) initial (t2, t1, w)"
    using assms by (simp add: transcript_inv_swap [of _ _ t1 t2])
  from task_step_first [OF this] s
  have "transcript_inv (req_lead rq) initial (t2', t1, w')" by simp
  then have "transcript_inv (req_lead rq) initial (t1, t2', w')"
    by (simp add: transcript_inv_swap [of _ _ t1 t2'])
  with s show ?thesis by simp
qed

lemma run_two_inv:
  assumes "req_lead r1 = i" and "req_lead r2 = i"
  shows "transcript_inv i initial (t1, t2, w) \<Longrightarrow>
         task_entries_ok r1 t1 \<Longrightarrow> task_entries_ok r2 t2 \<Longrightarrow>
         transcript_inv i initial (run_two r1 r2 sched (t1, t2, w)) \<and>
         task_entries_ok r1 (fst (run_two r1 r2 sched (t1, t2, w))) \<and>
         task_entries_ok r2 (fst (snd (run_two r1 r2 sched (t1, t2, w))))"
proof (induction sched arbitrary: t1 t2 w)
  case Nil
  then show ?case by simp
next
  case (Cons b bs)
  show ?case
  proof (cases b)
    case True
    obtain t1' w' where s: "task_step r1 t1 w = (t1', w')" by (cases "task_step r1 t1 w")
    have "transcript_inv i initial (t1', t2, w')"
      using task_step_first [of r1 initial t1 t2 w] Cons.prems(1) assms(1) s by simp
    moreover have "task_entries_ok r1 t1'"
      using task_step_entries_ok [OF Cons.prems(2), of w] s by simp
    ultimately show ?thesis
      using Cons.IH [of t1' t2 w'] Cons.prems(3) True s by simp
  next
    case False
    obtain t2' w' where s: "task_step r2 t2 w = (t2', w')" by (cases "task_step r2 t2 w")
    have "transcript_inv i initial (t1, t2', w')"
      using task_step_second [of r2 initial t1 t2 w] Cons.prems(1) assms(2) s by simp
    moreover have "task_entries_ok r2 t2'"
      using task_step_entries_ok [OF Cons.prems(3), of w] s by simp
    ultimately show ?thesis
      using Cons.IH [of t1 t2' w'] Cons.prems(2) False s by simp
  qed
qed

lemma run_two_alternating:
  assumes "findById_error (req_env r1) = None" and "findByIdAndUpdate_error (req_env r1) = None"
    and "create_error (req_env r1) = None"
    and "findById_error (req_env r2) = None" and "findByIdAndUpdate_error (req_env r2) = None"
    and "create_error (req_env r2) = None"
    and "req_lead r1 = i" and "req_lead r2 = i" and "map_of (leads w) i = Some l"
  shows "\<exists>p1 a1 p2 a2 w'.
           run_two r1 r2 [True, False, True, False] (Ready, Ready, w) = (Done p1 a1, Done p2 a2, w')"
proof -
  obtain p1 w1 where b1: "turn_begin (req_env r1) i (req_message r1) w = (Inr p1, w1)"
    using turn_begin_found [OF assms(1,9)] by blast
  have l1: "map_of (leads w1) i = Some l"
    using turn_begin_Inr [OF b1] assms(9) by simp
  obtain p2 w2 where b2: "turn_begin (req_env r2) i (req_message r2) w1 = (Inr p2, w2)"
    using turn_begin_found [OF assms(4) l1] by blast
  have l2: "map_of (leads w2) i = Some l"
    using turn_begin_Inr [OF b2] l1 by simp
  obtain a1 w3 where c1: "turn_commit (req_env r1) i (req_message r1) p1 w2 = (Inr a1, w3)"
    using turn_commit_ok [OF assms(2,3) l2] by blast
  have l3: "map_of (leads w3) i = Some (apply_update (updateData p1) l)"
    using turn_commit_Inr [OF c1] l2 by auto
  obtain a2 w4 where c2: "turn_commit (req_env r2) i (req_message r2) p2 w3 = (Inr a2, w4)"
    using turn_commit_ok [OF assms(5,6) l3] by blast
  have "run_two r1 r2 [True, False, True, False] (Ready, Ready, w) = (Done p1 a1, Done p2 a2, w4)"
    using b1 b2 c1 c2 assms(7,8) by (simp add: task_step_def)
  then show ?thesis by blast
qed

section \<open>Claim about the transcript\<close>

text \<open>
  C2. A successful turn leaves the lead's transcript equal to the one it found followed
  by exactly two entries, the user turn and then the assistant turn, each with the
  timestamp of its own reading of the clock; the entries that were there are kept as
  they were and in their order, and no other lead is touched. The append is made by
  the one atomic update of the store, so when two turns on the same lead run
  interleaved under any schedule and both succeed, the final transcript is the initial
  one followed by the two entries of one turn and the two entries of the other: four
  entries longer, all four present.
\<close>

theorem C2_atomic_append:
  "(processMessage env i userMessage w = (Inr r, w') \<longrightarrow>
      (\<exists>l l'. map_of (leads w) i = Some l \<and> map_of (leads w') i = Some l' \<and>
         transcript l' =
           transcript l @
           [\<lparr>role = User, text = userMessage, timestamp = Some (date_user env)\<rparr>,
            \<lparr>role = Assistant, text = reply_response r, timestamp = Some (date_assistant env)\<rparr>] \<and>
         (\<forall>j. j \<noteq> i \<longrightarrow> map_of (leads w') j = map_of (leads w) j))) \<and>
   (run_two r1 r2 sched (Ready, Ready, v) = (Done p1 a1, Done p2 a2, v') \<longrightarrow>
    req_lead r1 = k \<longrightarrow> req_lead r2 = k \<longrightarrow> map_of (leads v) k = Some l0 \<longrightarrow>
      (\<exists>l'. map_of (leads v') k = Some l' \<and>
         length (transcript l') = length (transcript l0) + 4 \<and>
         (transcript l' =
            transcript l0 @ turn_entries (req_env r1) (req_message r1) (aiResult p1) @
            turn_entries (req_env r2) (req_message r2) (aiResult p2) \<or>
          transcript l' =
            transcript l0 @ turn_entries (req_env r2) (req_message r2) (aiResult p2) @
            turn_entries (req_env r1) (req_message r1) (aiResult p1))))"
proof -
  have one: "\<exists>l l'. map_of (leads w) i = Some l \<and> map_of (leads w') i = Some l' \<and>
         transcript l' =
           transcript l @
           [\<lparr>role = User, text = userMessage, timestamp = Some (date_user env)\<rparr>,
            \<lparr>role = Assistant, text = reply_response r, timestamp = Some (date_assistant env)\<rparr>] \<and>
         (\<forall>j. j \<noteq> i \<longrightarrow> map_of (leads w') j = map_of (leads w) j)"
    if m: "processMessage env i userMessage w = (Inr r, w')"
  proof -
    obtain p w1 where b: "turn_begin env i userMessage w = (Inr p, w1)"
      and c: "turn_commit env i userMessage p w1 = (Inr r, w')"
      using processMessage_Inr [OF m] by blast
    from turn_begin_Inr [OF b]
    have l: "map_of (leads w) i = Some (lead_read p)" and w1: "leads w1 = leads w"
      by simp_all
    from turn_commit_Inr [OF c] l w1
    have l': "map_of (leads w') = (map_of (leads w))(i \<mapsto> apply_update (updateData p) (lead_read p))"
      and rr: "reply_response r = response (aiResult p)"
      by auto
    have "transcript (apply_update (updateData p) (lead_read p)) =
            transcript (lead_read p) @
            [\<lparr>role = User, text = userMessage, timestamp = Some (date_user env)\<rparr>,
             \<lparr>role = Assistant, text = reply_response r, timestamp = Some (date_assistant env)\<rparr>]"
      using turn_begin_entries [OF b] rr
      by (simp add: apply_update_transcript turn_entries_def)
    with l l' show ?thesis by simp
  qed
  have two: "\<exists>l'. map_of (leads v') k = Some l' \<and>
         length (transcript l') = length (transcript l0) + 4 \<and>
         (transcript l' =
            transcript l0 @ turn_entries (req_env r1) (req_message r1) (aiResult p1) @
            turn_entries (req_env r2) (req_message r2) (aiResult p2) \<or>
          transcript l' =
            transcript l0 @ turn_entries (req_env r2) (req_message r2) (aiResult p2) @
            turn_entries (req_env r1) (req_message r1) (aiResult p1))"
    if run: "run_two r1 r2 sched (Ready, Ready, v) = (Done p1 a1, Done p2 a2, v')"
      and k: "req_lead r1 = k" "req_lead r2 = k" and l0: "map_of (leads v) k = Some l0"
  proof -
    have init: "transcript_inv k (transcript l0) (Ready, Ready, v)"
      using l0 by (simp add: transcript_inv_def appended_def)
    have ok: "task_entries_ok r1 Ready" "task_entries_ok r2 Ready"
      by (simp_all add: task_entries_ok_def)
    from run_two_inv [OF k init ok, of sched] run
    have inv: "transcript_inv k (transcript l0) (Done p1 a1, Done p2 a2, v')"
      and e1: "task_entries_ok r1 (Done p1 a1)" and e2: "task_entries_ok r2 (Done p2 a2)"
      by simp_all
    from e1 e2 have e:
      "push_transcript (updateData p1) = turn_entries (req_env r1) (req_message r1) (aiResult p1)"
      "push_transcript (updateData p2) = turn_entries (req_env r2) (req_message r2) (aiResult p2)"
      by (simp_all add: task_entries_ok_def)
    from inv e show ?thesis
      by (auto simp: transcript_inv_def appended_def has_failed_def turn_entries_def)
  qed
  from one two show ?thesis by blast
qed

theorem C2_atomic_append_witness:
  "(\<exists>r w' l'.
      processMessage (example_env llm_delta_50 rag_one_document 1000) 1 ''Tell me about B.Tech''
        example_world = (Inr r, w') \<and>
      map_of (leads w') 1 = Some l' \<and>
      transcript l' =
        [\<lparr>role = User, text = ''Tell me about B.Tech'', timestamp = Some 1000\<rparr>,
         \<lparr>role = Assistant, text = reply_response r, timestamp = Some 1001\<rparr>]) \<and>
   (\<exists>p1 a1 p2 a2 v' l'.
      run_two
        \<lparr>req_env = example_env llm_delta_50 rag_one_document 1000, req_lead = 1,
          req_message = ''Tell me about B.Tech''\<rparr>
        \<lparr>req_env = example_env llm_delta_50 rag_down 2000, req_lead = 1,
          req_message = ''What is the fee?''\<rparr>
        [True, False, True, False] (Ready, Ready, example_world) =
        (Done p1 a1, Done p2 a2, v') \<and>
      map_of (leads v') 1 = Some l' \<and> length (transcript l') = 4)"
proof -
  let ?env = "example_env llm_delta_50 rag_one_document 1000"
  let ?msg = "''Tell me about B.Tech''"
  let ?r1 = "\<lparr>req_env = ?env, req_lead = 1, req_message = ?msg\<rparr>"
  let ?r2 = "\<lparr>req_env = example_env llm_delta_50 rag_down 2000, req_lead = 1,
              req_message = ''What is the fee?''\<rparr>"
  have l: "map_of (leads example_world) 1 = Some example_lead"
    by (simp add: example_world_def)
  have t0: "transcript example_lead = []"
    by (simp add: example_lead_def)
  have e: "findById_error ?env = None" "findByIdAndUpdate_error ?env = None"
    "create_error ?env = None"
    by (simp_all add: example_env_def)
  obtain r w' where m: "processMessage ?env 1 ?msg example_world = (Inr r, w')"
    using processMessage_ok [OF e(1) l e(2,3), of ?msg] by blast
  obtain p1 a1 p2 a2 v' where
    run: "run_two ?r1 ?r2 [True, False, True, False] (Ready, Ready, example_world) =
            (Done p1 a1, Done p2 a2, v')"
    using run_two_alternating [of ?r1 ?r2 1 example_world example_lead] l
    by (auto simp: example_env_def simp del: run_two.simps)
  note T = C2_atomic_append [of ?env 1 ?msg example_world r w' ?r1 ?r2
      "[True, False, True, False]" example_world p1 a1 p2 a2 v' 1 example_lead]
  from T m l t0 have A:
    "\<exists>l'. map_of (leads w') 1 = Some l' \<and>
       transcript l' =
         [\<lparr>role = User, text = ?msg, timestamp = Some 1000\<rparr>,
          \<lparr>role = Assistant, text = reply_response r, timestamp = Some 1001\<rparr>]"
    by (auto simp: example_env_def simp del: run_two.simps)
  from T run l t0 have B:
    "\<exists>l'. map_of (leads v') 1 = Some l' \<and> length (transcript l') = 4"
    by (auto simp del: run_two.simps)
  from A B m run show ?thesis
    by (auto simp del: run_two.simps)
qed

section \<open>Claims about the call worker\<close>

lemma save_ok:
  assumes "map_of store i = Some cur"
  shows "save None i doc store =
           Inr (AList.update i (cur\<lparr>status := status doc, attempts := attempts doc\<rparr>) store)"
  using assms by (simp add: save_def)

lemma map_of_saved:
  "map_of (AList.update i v store) i = Some v"
  by (simp add: update_conv')

lemma mark_failed_doc:
  "fst (mark_failed env i doc store) = doc\<lparr>status := failed\<rparr>"
  by (simp add: mark_failed_def Let_def split: sum.splits)

lemma mark_failed_store:
  assumes "save_failed_error env = None" and "map_of store i = Some cur"
  shows "map_of (snd (mark_failed env i doc store)) i =
           Some (cur\<lparr>status := failed, attempts := attempts doc\<rparr>)"
  using assms by (simp add: mark_failed_def Let_def save_def update_conv')

lemma apply_outcome_attempts: "attempts (apply_outcome outcome doc) = attempts doc"
  by (simp add: apply_outcome_def)

lemma process_lead_no_error:
  assumes "map_of store i = Some cur" and "save_calling_error env = None"
    and "resolve env (lead_doc\<lparr>status := calling, attempts := attempts lead_doc + 1\<rparr>) = Inr outcome"
    and "save_outcome_error env = None"
  shows "fst (process_lead env (i, lead_doc) store) =
           apply_outcome outcome (lead_doc\<lparr>status := calling, attempts := attempts lead_doc + 1\<rparr>) \<and>
         map_of (snd (process_lead env (i, lead_doc) store)) i =
           Some (cur\<lparr>status :=
                       status (apply_outcome outcome
                                 (lead_doc\<lparr>status := calling, attempts := attempts lead_doc + 1\<rparr>)),
                     attempts := attempts lead_doc + 1\<rparr>)"
  using assms
  by (simp add: process_lead_def start_attempt_def Let_def save_def update_conv'
      apply_outcome_attempts)

lemma process_lead_error:
  assumes "save_calling_error env \<noteq> None \<or>
           (\<exists>e. resolve env (lead_doc\<lparr>status := calling, attempts := attempts lead_doc + 1\<rparr>) = Inl e) \<or>
           save_outcome_error env \<noteq> None"
  shows "status (fst (process_lead env (i, lead_doc) store)) = failed \<and>
         attempts (fst (process_lead env (i, lead_doc) store)) = attempts lead_doc + 1"
  using assms
  by (auto simp: process_lead_def start_attempt_def Let_def mark_failed_doc apply_outcome_attempts
      save_def split: sum.splits prod.splits)

lemma process_lead_error_store:
  assumes "map_of store i = Some cur" and "save_failed_error env = None"
    and "save_calling_error env \<noteq> None \<or>
         (\<exists>e. resolve env (lead_doc\<lparr>status := calling, attempts := attempts lead_doc + 1\<rparr>) = Inl e) \<or>
         save_outcome_error env \<noteq> None"
  shows "\<exists>cur'. map_of (snd (process_lead env (i, lead_doc) store)) i = Some cur' \<and>
           status cur' = failed"
proof (cases "save (save_calling_error env) i
                (lead_doc\<lparr>status := calling, attempts := attempts lead_doc + 1\<rparr>) store")
  case (Inl e)
  then show ?thesis
    using mark_failed_store [OF assms(2,1)]
    by (simp add: process_lead_def start_attempt_def Let_def)
next
  case (Inr store1)
  then have s1: "map_of store1 i =
      Some (cur\<lparr>status := calling, attempts := attempts lead_doc + 1\<rparr>)"
    using assms(1) by (auto simp: save_def update_conv' split: option.splits)
  have c: "save_calling_error env = None"
    using Inr by (auto simp: save_def split: option.splits)
  show ?thesis
  proof (cases "resolve env (lead_doc\<lparr>status := calling, attempts := attempts lead_doc + 1\<rparr>)")
    case (Inl e)
    then show ?thesis
      using Inr mark_failed_store [OF assms(2) s1]
      by (simp add: process_lead_def start_attempt_def Let_def)
  next
    case outcome: (Inr outcome)
    with assms(3) c have "save_outcome_error env \<noteq> None" by simp
    then obtain e where "save_outcome_error env = Some e" by auto
    then show ?thesis
      using Inr outcome mark_failed_store [OF assms(2) s1]
      by (simp add: process_lead_def start_attempt_def Let_def save_def)
  qed
qed

text \<open>
  The loop body on one fetched document: calling and one more attempt first; then, when
  nothing throws, the branches on the outcome; when a save or the resolver throws, the
  document is marked failed, and stored as failed when the save of the
  \<^verbatim>\<open>catch\<close> block succeeds.
\<close>

lemma process_lead_outcome_table:
  assumes "map_of store i = Some cur"
  shows "fst (start_attempt env i lead_doc store) =
           lead_doc\<lparr>status := calling, attempts := attempts lead_doc + 1\<rparr> \<and>
         (save_calling_error env = None \<longrightarrow>
            (\<exists>store1. snd (start_attempt env i lead_doc store) = Inr store1 \<and>
               map_of store1 i =
                 Some (cur\<lparr>status := calling, attempts := attempts lead_doc + 1\<rparr>))) \<and>
         (save_calling_error env = None \<longrightarrow>
          resolve env (lead_doc\<lparr>status := calling, attempts := attempts lead_doc + 1\<rparr>) =
            Inr outcome \<longrightarrow>
          save_outcome_error env = None \<longrightarrow>
            attempts (fst (process_lead env (i, lead_doc) store)) = attempts lead_doc + 1 \<and>
            map_of (snd (process_lead env (i, lead_doc) store)) i =
              Some (cur\<lparr>status := status (fst (process_lead env (i, lead_doc) store)),
                        attempts := attempts lead_doc + 1\<rparr>) \<and>
            (outcome = ''completed'' \<longrightarrow>
               status (fst (process_lead env (i, lead_doc) store)) = completed) \<and>
            (outcome = ''no_answer'' \<longrightarrow> attempts lead_doc + 1 \<ge> 3 \<longrightarrow>
               status (fst (process_lead env (i, lead_doc) store)) = failed) \<and>
            (outcome = ''no_answer'' \<longrightarrow> attempts lead_doc + 1 < 3 \<longrightarrow>
               status (fst (process_lead env (i, lead_doc) store)) = pending) \<and>
            (outcome = ''failed'' \<longrightarrow>
               status (fst (process_lead env (i, lead_doc) store)) = failed)) \<and>
         (save_calling_error env \<noteq> None \<or>
          (\<exists>e. resolve env (lead_doc\<lparr>status := calling, attempts := attempts lead_doc + 1\<rparr>) =
                 Inl e) \<or>
          save_outcome_error env \<noteq> None \<longrightarrow>
            status (fst (process_lead env (i, lead_doc) store)) = failed \<and>
            attempts (fst (process_lead env (i, lead_doc) store)) = attempts lead_doc + 1 \<and>
            (save_failed_error env = None \<longrightarrow>
               (\<exists>cur'. map_of (snd (process_lead env (i, lead_doc) store)) i = Some cur' \<and>
                  status cur' = failed)))"
proof -
  let ?doc1 = "lead_doc\<lparr>status := calling, attempts := attempts lead_doc + 1\<rparr>"
  have a: "fst (start_attempt env i lead_doc store) = ?doc1"
    by (simp add: start_attempt_def Let_def)
  have b: "\<exists>store1. snd (start_attempt env i lead_doc store) = Inr store1 \<and>
             map_of store1 i = Some (cur\<lparr>status := calling, attempts := attempts lead_doc + 1\<rparr>)"
    if "save_calling_error env = None"
    using that save_ok [OF assms, of ?doc1]
    by (simp add: start_attempt_def Let_def update_conv')
  have c: "attempts (fst (process_lead env (i, lead_doc) store)) = attempts lead_doc + 1 \<and>
            map_of (snd (process_lead env (i, lead_doc) store)) i =
              Some (cur\<lparr>status := status (fst (process_lead env (i, lead_doc) store)),
                        attempts := attempts lead_doc + 1\<rparr>) \<and>
            (outcome = ''completed'' \<longrightarrow>
               status (fst (process_lead env (i, lead_doc) store)) = completed) \<and>
            (outcome = ''no_answer'' \<longrightarrow> attempts lead_doc + 1 \<ge> 3 \<longrightarrow>
               status (fst (process_lead env (i, lead_doc) store)) = failed) \<and>
            (outcome = ''no_answer'' \<longrightarrow> attempts lead_doc + 1 < 3 \<longrightarrow>
               status (fst (process_lead env (i, lead_doc) store)) = pending) \<and>
            (outcome = ''failed'' \<longrightarrow>
               status (fst (process_lead env (i, lead_doc) store)) = failed)"
    if "save_calling_error env = None" and "resolve env ?doc1 = Inr outcome"
      and "save_outcome_error env = None"
    using process_lead_no_error [OF assms that]
    by (simp add: apply_outcome_def)
  have d: "status (fst (process_lead env (i, lead_doc) store)) = failed \<and>
            attempts (fst (process_lead env (i, lead_doc) store)) = attempts lead_doc + 1 \<and>
            (save_failed_error env = None \<longrightarrow>
               (\<exists>cur'. map_of (snd (process_lead env (i, lead_doc) store)) i = Some cur' \<and>
                  status cur' = failed))"
    if e: "save_calling_error env \<noteq> None \<or> (\<exists>e. resolve env ?doc1 = Inl e) \<or>
           save_outcome_error env \<noteq> None"
    using process_lead_error [OF e, of i store] process_lead_error_store [OF assms _ e]
    by blast
  from a b c d show ?thesis by blast
qed

section \<open>A pass over the fetched leads\<close>
























text \<open>
  C3, on the code: the manual trigger neither tests nor sets \<open>isRunning\<close>. With a pass
  started by the periodic trigger still in flight (the flag is set, and a second
  periodic tick changes nothing), \<open>triggerManually\<close> starts a second pass; and with a
  pass started manually in flight, the flag is clear and a periodic tick starts a second
  pass too.
\<close>

theorem C3_manual_trigger_unguarded:
  "isRunning (worker_step CronTick new_worker) \<and>
   passes_in_flight (worker_step CronTick new_worker) = 1 \<and>
   worker_step CronTick (worker_step CronTick new_worker) = worker_step CronTick new_worker \<and>
   passes_in_flight (worker_step ManualTrigger (worker_step CronTick new_worker)) = 2 \<and>
   \<not> isRunning (worker_step ManualTrigger new_worker) \<and>
   passes_in_flight (worker_step CronTick (worker_step ManualTrigger new_worker)) = 2"
  by (simp add: new_worker_def)

end
